theory Spec2Isabelle
  imports Main
begin

section \<open>Data model of the job and batch stores (index.ts)\<close>

text \<open>
  The server keeps two process-wide registries, \<^verbatim>\<open>jobs\<close> and \<^verbatim>\<open>batchJobs\<close>
  (JavaScript \<^verbatim>\<open>Map\<close>s keyed by id). Timestamps (\<^verbatim>\<open>new Date()\<close>) are natural
  numbers supplied by the caller of each operation; optional fields are options.
\<close>

datatype job_status = pending | processing | completed | failed

datatype batch_status = batch_pending | batch_processing | batch_completed | batch_partial | batch_failed

datatype aspect_ratio = ar_1_1 | ar_3_4 | ar_4_3 | ar_9_16 | ar_16_9

datatype model_name =
    gemini_2_5_flash_image
  | gemini_2_5_flash_image_preview
  | gemini_3_pro_image_preview
  | gemini_2_0_flash_exp_image_generation

record ImageJob =
  job_id :: string
  status :: job_status
  prompt :: string
  result :: "string option"
  error :: "string option"
  job_createdAt :: nat
  job_completedAt :: "nat option"

record BatchJob =
  batch_id :: string
  jobIds :: "string list"
  totalCount :: nat
  batch_createdAt :: nat
  batch_completedAt :: "nat option"

text \<open>
  The request handed to \<^verbatim>\<open>genAI.models.generateContent\<close>. A call that has been issued
  and whose promise has not settled yet is a suspended continuation of the anonymous
  async function in \<^verbatim>\<open>generateImage\<close>; the continuation only remembers the job id, so
  the suspended calls are a table from job id to the request sent.
\<close>

record GenerateRequest =
  req_model :: model_name
  req_contents :: string
  req_aspectRatio :: aspect_ratio

record server =
  jobs :: "string \<rightharpoonup> ImageJob"
  batchJobs :: "string \<rightharpoonup> BatchJob"
  inflight :: "string \<rightharpoonup> GenerateRequest"

definition init :: server where
  "init = \<lparr>jobs = Map.empty, batchJobs = Map.empty, inflight = Map.empty\<rparr>"

text \<open>
  Every \<^verbatim>\<open>throw new Error(...)\<close> of the source is one constructor; \<open>message\<close> gives the
  text of the JavaScript error. \<open>IOError\<close> stands for whatever \<^verbatim>\<open>mkdir\<close> or
  \<^verbatim>\<open>writeFile\<close> throw. A request handler can also fail with the \<^verbatim>\<open>ZodError\<close> of its
  schema, which it rethrows as \<^verbatim>\<open>Invalid arguments: ...\<close>; the issues are kept structured.
\<close>

datatype zod_issue = too_small | too_big

datatype error =
    JobNotFound string
  | JobNotCompleted string job_status
  | JobNoResult string
  | PathNotPng
  | BatchNotFound string
  | IOError string

datatype handler_error = Thrown error | InvalidArguments "zod_issue list"

fun status_text :: "job_status \<Rightarrow> string" where
  "status_text pending = ''pending''"
| "status_text processing = ''processing''"
| "status_text completed = ''completed''"
| "status_text failed = ''failed''"

fun message :: "error \<Rightarrow> string" where
  "message (JobNotFound jobId) = ''Job '' @ jobId @ '' not found''"
| "message (JobNotCompleted jobId s) =
     ''Job '' @ jobId @ '' is not completed (status: '' @ status_text s @ '')''"
| "message (JobNoResult jobId) = ''Job '' @ jobId @ '' has no result data''"
| "message PathNotPng = ''File path must end in .png''"
| "message (BatchNotFound batchId) = ''Batch '' @ batchId @ '' not found''"
| "message (IOError m) = m"

section \<open>generateImage\<close>

text \<open>
  \<^verbatim>\<open>generateImage\<close> stores a pending record under the generated id (\<open>createJob\<close>),
  then calls the anonymous async function without awaiting it. That function runs
  synchronously up to its first \<^verbatim>\<open>await\<close>: it sets the status to processing and issues
  the request, which returns a promise (\<open>dispatch\<close>). The job id and the creation time
  come from \<^verbatim>\<open>generateJobId()\<close> and \<^verbatim>\<open>new Date()\<close> and are arguments here. Nothing
  deletes from \<^verbatim>\<open>jobs\<close>, so the \<^verbatim>\<open>jobs.get(jobId)!\<close> of the source finds the record; the
  \<open>None\<close> branches below stand for the \<^verbatim>\<open>TypeError\<close> it would raise otherwise, which
  leaves the stores as they are.
\<close>

definition createJob :: "server \<Rightarrow> string \<Rightarrow> nat \<Rightarrow> string \<Rightarrow> server" where
  "createJob st jobId now p =
     st\<lparr>jobs := (jobs st)(jobId \<mapsto>
        \<lparr>job_id = jobId, status = pending, prompt = p, result = None, error = None,
         job_createdAt = now, job_completedAt = None\<rparr>)\<rparr>"

definition dispatch :: "server \<Rightarrow> string \<Rightarrow> GenerateRequest \<Rightarrow> server" where
  "dispatch st jobId req =
     (case jobs st jobId of
        None \<Rightarrow> st
      | Some job \<Rightarrow>
          st\<lparr>jobs := (jobs st)(jobId \<mapsto> job\<lparr>status := processing\<rparr>),
             inflight := (inflight st)(jobId \<mapsto> req)\<rparr>)"

definition generateImage ::
  "server \<Rightarrow> string \<Rightarrow> nat \<Rightarrow> string \<Rightarrow> aspect_ratio \<Rightarrow> model_name \<Rightarrow> server \<times> string" where
  "generateImage st jobId now p aspectRatio model =
     (dispatch (createJob st jobId now p) jobId
        \<lparr>req_model = model, req_contents = p, req_aspectRatio = aspectRatio\<rparr>,
      jobId)"

text \<open>
  The rest of the async function runs when the promise settles (\<open>settle\<close>), once for
  each request issued. \<open>Resolved d\<close> is a
  response whose \<^verbatim>\<open>imagePart?.inlineData?.data\<close> is \<open>d\<close> (\<open>None\<close> for undefined);
  the \<^verbatim>\<open>if\<close> tests its truthiness, so the empty string counts as missing and goes to
  the \<^verbatim>\<open>throw\<close>, which the \<^verbatim>\<open>catch\<close> of the same function records. \<open>Rejected m\<close> is
  a rejection whose message is \<open>m\<close>.
\<close>

datatype api_outcome = Resolved "string option" | Rejected string

definition job_fail :: "ImageJob \<Rightarrow> string \<Rightarrow> nat \<Rightarrow> ImageJob" where
  "job_fail job m now = job\<lparr>status := failed, error := Some m, job_completedAt := Some now\<rparr>"

fun settle_job :: "ImageJob \<Rightarrow> api_outcome \<Rightarrow> nat \<Rightarrow> ImageJob" where
  "settle_job job (Resolved (Some d)) now =
     (if d \<noteq> [] then job\<lparr>status := completed, result := Some d, job_completedAt := Some now\<rparr>
      else job_fail job ''No image data in response'' now)"
| "settle_job job (Resolved None) now = job_fail job ''No image data in response'' now"
| "settle_job job (Rejected m) now = job_fail job m now"

definition settle :: "server \<Rightarrow> string \<Rightarrow> api_outcome \<Rightarrow> nat \<Rightarrow> server" where
  "settle st jobId outcome now =
     (case jobs st jobId of
        None \<Rightarrow> st\<lparr>inflight := (inflight st)(jobId := None)\<rparr>
      | Some job \<Rightarrow>
          st\<lparr>jobs := (jobs st)(jobId \<mapsto> settle_job job outcome now),
             inflight := (inflight st)(jobId := None)\<rparr>)"

section \<open>check_job_status\<close>

record JobStatusResponse =
  rsp_jobId :: string
  rsp_status :: job_status
  rsp_prompt :: string
  rsp_createdAt :: nat
  rsp_completedAt :: "nat option"
  rsp_message :: "string option"
  rsp_hasResult :: "bool option"
  rsp_error :: "string option"

definition check_job_status :: "server \<Rightarrow> string \<Rightarrow> error + JobStatusResponse" where
  "check_job_status st jobId =
     (case jobs st jobId of
        None \<Rightarrow> Inl (JobNotFound jobId)
      | Some job \<Rightarrow>
          (let response = \<lparr>rsp_jobId = job_id job, rsp_status = status job,
                            rsp_prompt = prompt job, rsp_createdAt = job_createdAt job,
                            rsp_completedAt = job_completedAt job, rsp_message = None,
                            rsp_hasResult = None, rsp_error = None\<rparr>
           in Inr (if status job = completed then
                     response\<lparr>rsp_message :=
                                 Some ''Image generation completed. Use save_image to save the result.'',
                              rsp_hasResult := Some True\<rparr>
                   else if status job = failed then response\<lparr>rsp_error := error job\<rparr>
                   else response\<lparr>rsp_message :=
                                   Some (''Image generation is '' @ status_text (status job)
                                         @ ''. Please check again later.'')\<rparr>)))"

section \<open>generateBatchImages\<close>

record BatchPrompt =
  bp_prompt :: string
  bp_aspectRatio :: "aspect_ratio option"
  bp_model :: "model_name option"

text \<open>
  The \<^verbatim>\<open>for ... of\<close> loop over the prompts. The \<open>k\<close>-th call of \<^verbatim>\<open>generateImage\<close> in
  the loop draws its job id and creation time from \<open>gen k\<close>. \<^verbatim>\<open>a || b\<close> on an optional
  enum value is the default when the value is missing.
\<close>

fun generateBatch_loop ::
  "server \<Rightarrow> BatchPrompt list \<Rightarrow> aspect_ratio \<Rightarrow> model_name \<Rightarrow> (nat \<Rightarrow> string \<times> nat) \<Rightarrow> nat
     \<Rightarrow> string list \<Rightarrow> server \<times> string list" where
  "generateBatch_loop st [] defaultAspectRatio defaultModel gen k ids = (st, ids)"
| "generateBatch_loop st (promptConfig # rest) defaultAspectRatio defaultModel gen k ids =
     (let aspectRatio = (case bp_aspectRatio promptConfig of Some a \<Rightarrow> a
                         | None \<Rightarrow> defaultAspectRatio);
          model = (case bp_model promptConfig of Some m \<Rightarrow> m | None \<Rightarrow> defaultModel);
          (st', jobId) = generateImage st (fst (gen k)) (snd (gen k))
                           (bp_prompt promptConfig) aspectRatio model
      in generateBatch_loop st' rest defaultAspectRatio defaultModel gen (Suc k) (ids @ [jobId]))"

definition createBatch :: "server \<Rightarrow> string \<Rightarrow> string list \<Rightarrow> nat \<Rightarrow> nat \<Rightarrow> server" where
  "createBatch st batchId ids n now =
     st\<lparr>batchJobs := (batchJobs st)(batchId \<mapsto>
        \<lparr>batch_id = batchId, jobIds = ids, totalCount = n, batch_createdAt = now,
         batch_completedAt = None\<rparr>)\<rparr>"

definition generateBatchImages ::
  "server \<Rightarrow> BatchPrompt list \<Rightarrow> aspect_ratio \<Rightarrow> model_name \<Rightarrow> (nat \<Rightarrow> string \<times> nat)
     \<Rightarrow> string \<Rightarrow> nat \<Rightarrow> server \<times> string \<times> string list" where
  "generateBatchImages st prompts defaultAspectRatio defaultModel gen batchId now =
     (let (st', ids) = generateBatch_loop st prompts defaultAspectRatio defaultModel gen 0 []
      in (createBatch st' batchId ids (length prompts) now, batchId, ids))"

text \<open>
  The \<^verbatim>\<open>generate_batch_images\<close> request handler. The arguments are already typed here;
  of the checks of \<^verbatim>\<open>GenerateBatchImagesSchema\<close> that leaves \<^verbatim>\<open>.min(1).max(20)\<close> on the
  array and the two defaults.
\<close>

record GenerateBatchArgs =
  arg_prompts :: "BatchPrompt list"
  arg_defaultAspectRatio :: "aspect_ratio option"
  arg_defaultModel :: "model_name option"

definition GenerateBatchImagesSchema_parse ::
  "GenerateBatchArgs \<Rightarrow> zod_issue list + (BatchPrompt list \<times> aspect_ratio \<times> model_name)" where
  "GenerateBatchImagesSchema_parse args =
     (if length (arg_prompts args) < 1 then Inl [too_small]
      else if length (arg_prompts args) > 20 then Inl [too_big]
      else Inr (arg_prompts args,
                (case arg_defaultAspectRatio args of Some a \<Rightarrow> a | None \<Rightarrow> ar_1_1),
                (case arg_defaultModel args of Some m \<Rightarrow> m
                 | None \<Rightarrow> gemini_3_pro_image_preview)))"

record GenerateBatchResponse =
  gb_batchId :: string
  gb_jobIds :: "string list"
  gb_totalImages :: nat
  gb_status :: string
  gb_message :: string

definition handle_generate_batch_images ::
  "server \<Rightarrow> GenerateBatchArgs \<Rightarrow> (nat \<Rightarrow> string \<times> nat) \<Rightarrow> string \<Rightarrow> nat
     \<Rightarrow> (handler_error + GenerateBatchResponse) \<times> server" where
  "handle_generate_batch_images st args gen newBatchId now =
     (case GenerateBatchImagesSchema_parse args of
        Inl issues \<Rightarrow> (Inl (InvalidArguments issues), st)
      | Inr (prompts, defaultAspectRatio, defaultModel) \<Rightarrow>
          (let (st', batchId, ids) =
                 generateBatchImages st prompts defaultAspectRatio defaultModel gen newBatchId now
           in (Inr \<lparr>gb_batchId = batchId, gb_jobIds = ids, gb_totalImages = length prompts,
                     gb_status = ''pending'',
                     gb_message = ''Batch image generation started. Use check_batch_status to monitor progress.''\<rparr>,
               st')))"

section \<open>getBatchStatus\<close>

record JobDetail =
  jd_jobId :: string
  jd_status :: job_status
  jd_prompt :: string

record tally =
  completedCount :: nat
  failedCount :: nat
  pendingCount :: nat
  processingCount :: nat
  jobDetails :: "JobDetail list"

record BatchStatus =
  r_batchId :: string
  r_status :: batch_status
  r_totalCount :: nat
  r_completedCount :: nat
  r_failedCount :: nat
  r_pendingCount :: nat
  r_processingCount :: nat
  r_jobs :: "JobDetail list"
  r_createdAt :: nat
  r_completedAt :: "nat option"

text \<open>
  The body of the \<^verbatim>\<open>if (job)\<close> inside the loop: push the summary of the job (its
  prompt cut to 50 characters), then the switch on its status.
\<close>

definition job_summary :: "ImageJob \<Rightarrow> JobDetail" where
  "job_summary job =
     \<lparr>jd_jobId = job_id job, jd_status = status job,
      jd_prompt = take 50 (prompt job) @ (if length (prompt job) > 50 then ''...'' else [])\<rparr>"

definition tally_job :: "ImageJob \<Rightarrow> tally \<Rightarrow> tally" where
  "tally_job job t =
     (let t1 = t\<lparr>jobDetails := jobDetails t @ [job_summary job]\<rparr>
      in case status job of
           completed \<Rightarrow> t1\<lparr>completedCount := completedCount t1 + 1\<rparr>
         | failed \<Rightarrow> t1\<lparr>failedCount := failedCount t1 + 1\<rparr>
         | pending \<Rightarrow> t1\<lparr>pendingCount := pendingCount t1 + 1\<rparr>
         | processing \<Rightarrow> t1\<lparr>processingCount := processingCount t1 + 1\<rparr>)"

fun tally_loop :: "server \<Rightarrow> string list \<Rightarrow> tally \<Rightarrow> tally" where
  "tally_loop st [] t = t"
| "tally_loop st (jobId # rest) t =
     (case jobs st jobId of
        Some job \<Rightarrow> tally_loop st rest (tally_job job t)
      | None \<Rightarrow> tally_loop st rest t)"

text \<open>
  \<^verbatim>\<open>getBatchStatus\<close> reads the batch, tallies its members, decides the status and, when
  all are done and \<^verbatim>\<open>completedAt\<close> is unset, stamps it with \<^verbatim>\<open>new Date()\<close> (\<open>now\<close>).
  The updated store is returned with the result.
\<close>

definition getBatchStatus :: "server \<Rightarrow> string \<Rightarrow> nat \<Rightarrow> error + (BatchStatus \<times> server)" where
  "getBatchStatus st batchId now =
     (case batchJobs st batchId of
        None \<Rightarrow> Inl (BatchNotFound batchId)
      | Some batch \<Rightarrow>
          (let t = tally_loop st (jobIds batch)
                     \<lparr>completedCount = 0, failedCount = 0, pendingCount = 0,
                      processingCount = 0, jobDetails = []\<rparr>;
               allDone = (completedCount t + failedCount t = totalCount batch);
               batch' = (if allDone \<and> batch_completedAt batch = None
                         then batch\<lparr>batch_completedAt := Some now\<rparr> else batch);
               s = (if allDone then
                      (if failedCount t = totalCount batch then batch_failed
                       else if failedCount t > 0 then batch_partial
                       else batch_completed)
                    else if processingCount t > 0 \<or> completedCount t > 0 then batch_processing
                    else batch_pending)
           in Inr (\<lparr>r_batchId = batch_id batch', r_status = s, r_totalCount = totalCount batch',
                     r_completedCount = completedCount t, r_failedCount = failedCount t,
                     r_pendingCount = pendingCount t, r_processingCount = processingCount t,
                     r_jobs = jobDetails t, r_createdAt = batch_createdAt batch',
                     r_completedAt = batch_completedAt batch'\<rparr>,
                   st\<lparr>batchJobs := (batchJobs st)(batchId \<mapsto> batch')\<rparr>)))"

section \<open>saveImageToFile and saveBatchImages\<close>

text \<open>
  The file system and the functions of Node's \<^verbatim>\<open>path\<close>, \<^verbatim>\<open>fs/promises\<close> and \<^verbatim>\<open>Buffer\<close>
  modules are not part of the repository: they are parameters. \<open>fs_mkdir\<close> is
  \<^verbatim>\<open>mkdir(p, { recursive: true })\<close> and \<open>fs_writeFile\<close> is \<^verbatim>\<open>writeFile(p, buffer)\<close>; each
  returns the message of the error it throws, if any, and the file system it leaves.
\<close>

record 'fs node_env =
  path_resolve :: "string \<Rightarrow> string"
  path_join :: "string \<Rightarrow> string \<Rightarrow> string"
  path_dirname :: "string \<Rightarrow> string"
  fs_mkdir :: "string \<Rightarrow> 'fs \<Rightarrow> string option \<times> 'fs"
  fs_writeFile :: "string \<Rightarrow> string \<Rightarrow> 'fs \<Rightarrow> string option \<times> 'fs"
  base64_decode :: "string \<Rightarrow> string"

definition endsWith :: "string \<Rightarrow> string \<Rightarrow> bool" where
  "endsWith s suffix =
     (length suffix \<le> length s \<and> drop (length s - length suffix) s = suffix)"

text \<open>\<^verbatim>\<open>!job.result\<close> holds for an unset result and for the empty string.\<close>

definition saveImageToFile ::
  "'fs node_env \<Rightarrow> server \<Rightarrow> string \<Rightarrow> string \<Rightarrow> 'fs \<Rightarrow> (error + unit) \<times> 'fs" where
  "saveImageToFile env st jobId filePath fs =
     (case jobs st jobId of
        None \<Rightarrow> (Inl (JobNotFound jobId), fs)
      | Some job \<Rightarrow>
          if status job \<noteq> completed then (Inl (JobNotCompleted jobId (status job)), fs)
          else if result job = None \<or> result job = Some [] then (Inl (JobNoResult jobId), fs)
          else
            (let absolutePath = path_resolve env filePath in
             if \<not> endsWith absolutePath ''.png'' then (Inl PathNotPng, fs)
             else
               (case fs_mkdir env (path_dirname env absolutePath) fs of
                  (Some m, fs1) \<Rightarrow> (Inl (IOError m), fs1)
                | (None, fs1) \<Rightarrow>
                    (case fs_writeFile env absolutePath
                            (base64_decode env (the (result job))) fs1 of
                       (Some m, fs2) \<Rightarrow> (Inl (IOError m), fs2)
                     | (None, fs2) \<Rightarrow> (Inr (), fs2)))))"

text \<open>Decimal rendering of a number in a template string: \<^verbatim>\<open>${i + 1}\<close>.\<close>

definition digit_char :: "nat \<Rightarrow> char" where
  "digit_char d = ''0123456789'' ! d"

function nat_to_string :: "nat \<Rightarrow> string" where
  "nat_to_string n =
     (if n < 10 then [digit_char n] else nat_to_string (n div 10) @ [digit_char (n mod 10)])"
  by pat_completeness auto
termination
  by (relation "measure (\<lambda>n. n)") auto

declare nat_to_string.simps [simp del]

definition batch_filePath :: "'fs node_env \<Rightarrow> string \<Rightarrow> string \<Rightarrow> nat \<Rightarrow> string" where
  "batch_filePath env absoluteDir filenamePrefix i =
     path_join env absoluteDir (filenamePrefix @ ''_'' @ nat_to_string (i + 1) @ ''.png'')"

text \<open>
  \<^verbatim>\<open>saveBatchImages\<close> reads the batch once, when it is called, and then awaits: first
  \<^verbatim>\<open>mkdir\<close>, then \<^verbatim>\<open>saveImageToFile\<close> for each member. Between two awaits other code
  runs (a generation settles, another request is served), and each call of
  \<^verbatim>\<open>saveImageToFile\<close> looks its job up in \<^verbatim>\<open>jobs\<close> when it is called. So the job store is
  not one value for the whole call: \<open>storeAt i\<close> is the store as it is when the member at
  index \<open>i\<close> is tried. The \<^verbatim>\<open>jobIds\<close> array of the batch never changes.

  The \<^verbatim>\<open>for (let i = 0; i < batch.jobIds.length; i++)\<close> loop, with its two result arrays as
  accumulators. The \<^verbatim>\<open>try\<close> wraps \<^verbatim>\<open>saveImageToFile\<close> only.
\<close>

function saveBatch_loop ::
  "'fs node_env \<Rightarrow> (nat \<Rightarrow> server) \<Rightarrow> string \<Rightarrow> string \<Rightarrow> string list \<Rightarrow> nat
     \<Rightarrow> (string \<times> string) list \<Rightarrow> (string \<times> string) list \<Rightarrow> 'fs
     \<Rightarrow> ((string \<times> string) list \<times> (string \<times> string) list) \<times> 'fs" where
  "saveBatch_loop env storeAt absoluteDir filenamePrefix ids i saved failedL fs =
     (if i < length ids then
        (let jobId = ids ! i;
             filePath = batch_filePath env absoluteDir filenamePrefix i
         in case saveImageToFile env (storeAt i) jobId filePath fs of
              (Inr u, fs') \<Rightarrow>
                saveBatch_loop env storeAt absoluteDir filenamePrefix ids (i + 1)
                  (saved @ [(jobId, filePath)]) failedL fs'
            | (Inl e, fs') \<Rightarrow>
                saveBatch_loop env storeAt absoluteDir filenamePrefix ids (i + 1)
                  saved (failedL @ [(jobId, message e)]) fs')
      else ((saved, failedL), fs))"
  by pat_completeness auto
termination
  by (relation "measure (\<lambda>(env, storeAt, absoluteDir, filenamePrefix, ids, i, saved, failedL, fs).
                           length ids - i)") auto

declare saveBatch_loop.simps [simp del]

text \<open>\<open>st\<close> is the store when \<^verbatim>\<open>saveBatchImages\<close> is called: the batch is read from it.\<close>

definition saveBatchImages ::
  "'fs node_env \<Rightarrow> server \<Rightarrow> (nat \<Rightarrow> server) \<Rightarrow> string \<Rightarrow> string \<Rightarrow> string \<Rightarrow> 'fs
     \<Rightarrow> (error + (string \<times> string) list \<times> (string \<times> string) list) \<times> 'fs" where
  "saveBatchImages env st storeAt batchId directory filenamePrefix fs =
     (case batchJobs st batchId of
        None \<Rightarrow> (Inl (BatchNotFound batchId), fs)
      | Some batch \<Rightarrow>
          (let absoluteDir = path_resolve env directory in
           case fs_mkdir env absoluteDir fs of
             (Some m, fs1) \<Rightarrow> (Inl (IOError m), fs1)
           | (None, fs1) \<Rightarrow>
               (let (r, fs2) = saveBatch_loop env storeAt absoluteDir filenamePrefix
                                 (jobIds batch) 0 [] [] fs1
                in (Inr r, fs2))))"

text \<open>The \<^verbatim>\<open>save_batch_images\<close> request handler.\<close>

record SaveBatchArgs =
  sb_batchId :: string
  sb_directory :: string
  sb_filenamePrefix :: "string option"

record SaveBatchResponse =
  sr_success :: bool
  sr_message :: string
  sr_savedCount :: nat
  sr_failedCount :: nat
  sr_saved :: "(string \<times> string) list"
  sr_failed :: "(string \<times> string) list option"

definition handle_save_batch_images ::
  "'fs node_env \<Rightarrow> server \<Rightarrow> (nat \<Rightarrow> server) \<Rightarrow> SaveBatchArgs \<Rightarrow> 'fs
     \<Rightarrow> (handler_error + SaveBatchResponse) \<times> 'fs" where
  "handle_save_batch_images env st storeAt args fs =
     (let batchId = sb_batchId args;
          directory = sb_directory args;
          filenamePrefix = (case sb_filenamePrefix args of Some p \<Rightarrow> p | None \<Rightarrow> ''image'')
      in case saveBatchImages env st storeAt batchId directory filenamePrefix fs of
           (Inl e, fs') \<Rightarrow> (Inl (Thrown e), fs')
         | (Inr (saved, failedL), fs') \<Rightarrow>
             (Inr \<lparr>sr_success = (length saved > 0),
                   sr_message = ''Saved '' @ nat_to_string (length saved) @ '' images to ''
                                @ directory,
                   sr_savedCount = length saved,
                   sr_failedCount = length failedL,
                   sr_saved = saved,
                   sr_failed = (if length failedL > 0 then Some failedL else None)\<rparr>,
              fs'))"

section \<open>Executions of the server\<close>

text \<open>
  JavaScript runs each piece of code between two \<^verbatim>\<open>await\<close>s to completion, so the
  store changes in atomic steps. Creating a job and starting its request are two steps
  here, although \<^verbatim>\<open>generateImage\<close> always runs them back to back: the executions of
  the server are among those of this relation. The identifier generator is taken to
  return an id that is not in use. \<^verbatim>\<open>generateBatchImages\<close> awaits each
  \<^verbatim>\<open>generateImage\<close>, so other steps can interleave with its loop; its last statement
  registers a batch over job ids that were all created before. Saving writes files
  only and does not change the stores.
\<close>

inductive step :: "server \<Rightarrow> server \<Rightarrow> bool" where
  step_create: "jobId \<notin> dom (jobs st) \<Longrightarrow> step st (createJob st jobId now p)"
| step_dispatch:
    "jobs st jobId = Some job \<Longrightarrow> status job = pending \<Longrightarrow> step st (dispatch st jobId req)"
| step_settle: "jobId \<in> dom (inflight st) \<Longrightarrow> step st (settle st jobId outcome now)"
| step_batch:
    "batchId \<notin> dom (batchJobs st) \<Longrightarrow> set ids \<subseteq> dom (jobs st)
       \<Longrightarrow> step st (createBatch st batchId ids (length ids) now)"
| step_aggregate: "getBatchStatus st batchId now = Inr (r, st') \<Longrightarrow> step st st'"

definition reachable :: "server \<Rightarrow> bool" where
  "reachable st = step\<^sup>*\<^sup>* init st"

definition terminal :: "job_status \<Rightarrow> bool" where
  "terminal s = (s = completed \<or> s = failed)"

section \<open>Properties stated about the stores\<close>

text \<open>The number of ids in a list whose job is in the store with a given status.\<close>

definition count_status :: "server \<Rightarrow> string list \<Rightarrow> job_status \<Rightarrow> nat" where
  "count_status st ids s = length (filter (\<lambda>i. map_option status (jobs st i) = Some s) ids)"

text \<open>The ids of a list that are keys of the job store, in the order of the list.\<close>

definition present :: "server \<Rightarrow> string list \<Rightarrow> string list" where
  "present st ids = filter (\<lambda>i. jobs st i \<noteq> None) ids"

text \<open>
  The precedence table of the aggregate status, written from the specification's
  wording (section 4.5), to be compared with what \<open>getBatchStatus\<close> computes.
\<close>

definition spec_aggregate :: "nat \<Rightarrow> nat \<Rightarrow> nat \<Rightarrow> nat \<Rightarrow> batch_status" where
  "spec_aggregate completedN failedN processingN totalN =
     (let allDone = (completedN + failedN = totalN) in
      if allDone \<and> failedN = totalN then batch_failed
      else if allDone \<and> failedN > 0 then batch_partial
      else if allDone then batch_completed
      else if processingN > 0 \<or> completedN > 0 then batch_processing
      else batch_pending)"

fun status_rank :: "job_status \<Rightarrow> nat" where
  "status_rank pending = 0"
| "status_rank processing = 1"
| "status_rank completed = 2"
| "status_rank failed = 2"

text \<open>
  A well-formed job record: the result is set exactly when the job is completed (and is
  then not empty), the error exactly when it is failed, and \<^verbatim>\<open>completedAt\<close> exactly in
  the two terminal states.
\<close>

definition job_ok :: "ImageJob \<Rightarrow> bool" where
  "job_ok job =
     ((status job = completed) = (result job \<noteq> None)
      \<and> (status job = failed) = (error job \<noteq> None)
      \<and> terminal (status job) = (job_completedAt job \<noteq> None)
      \<and> result job \<noteq> Some [])"

text \<open>
  One legal change of a job record: pending to processing with nothing else touched, or
  processing to completed with the result and the completion time set together, or
  processing to failed with the error and the completion time set together.
\<close>

definition job_trans :: "ImageJob \<Rightarrow> ImageJob \<Rightarrow> bool" where
  "job_trans job job' =
     (case (status job, status job') of
        (pending, processing) \<Rightarrow> job' = job\<lparr>status := processing\<rparr>
      | (processing, completed) \<Rightarrow>
          (case (result job', job_completedAt job') of
             (Some d, Some t) \<Rightarrow>
               d \<noteq> [] \<and> job' = job\<lparr>status := completed, result := Some d,
                                      job_completedAt := Some t\<rparr>
           | _ \<Rightarrow> False)
      | (processing, failed) \<Rightarrow>
          (case (error job', job_completedAt job') of
             (Some m, Some t) \<Rightarrow>
               job' = job\<lparr>status := failed, error := Some m, job_completedAt := Some t\<rparr>
           | _ \<Rightarrow> False)
      | _ \<Rightarrow> False)"

text \<open>What holds of the stores in every execution (proved below).\<close>

definition store_inv :: "server \<Rightarrow> bool" where
  "store_inv st =
     ((\<forall>jobId job. jobs st jobId = Some job \<longrightarrow> job_ok job \<and> job_id job = jobId)
      \<and> (\<forall>jobId req. inflight st jobId = Some req \<longrightarrow>
             map_option status (jobs st jobId) = Some processing)
      \<and> (\<forall>batchId batch. batchJobs st batchId = Some batch \<longrightarrow>
             batch_id batch = batchId
             \<and> totalCount batch = length (jobIds batch)
             \<and> set (jobIds batch) \<subseteq> dom (jobs st)
             \<and> (batch_completedAt batch \<noteq> None \<longrightarrow>
                  (\<forall>i \<in> set (jobIds batch).
                     \<exists>job. jobs st i = Some job \<and> terminal (status job)))))"

text \<open>All members of a batch are in the store and in a terminal state.\<close>

definition all_terminal :: "server \<Rightarrow> string list \<Rightarrow> bool" where
  "all_terminal st ids =
     list_all (\<lambda>i. case jobs st i of None \<Rightarrow> False | Some job \<Rightarrow> terminal (status job)) ids"

text \<open>The batch record that \<open>getBatchStatus\<close> leaves in the store.\<close>

definition stamp :: "server \<Rightarrow> BatchJob \<Rightarrow> nat \<Rightarrow> BatchJob" where
  "stamp st batch now =
     (if count_status st (jobIds batch) completed + count_status st (jobIds batch) failed
           = totalCount batch \<and> batch_completedAt batch = None
      then batch\<lparr>batch_completedAt := Some now\<rparr> else batch)"

text \<open>
  The batch save written from the specification's wording (section 4.6): every item is
  attempted, in the stored order, whatever happened to the items before it. The file
  system when the member at index \<open>k\<close> is tried is the one its predecessors left;
  the outcome of member \<open>k\<close> is that of saving it alone, to its own path, on that file
  system and the store of that moment. The saved list holds the members whose save
  succeeded, with their paths; the failed list holds the others, with the message of
  their error.
\<close>

primrec fs_before ::
  "'fs node_env \<Rightarrow> (nat \<Rightarrow> server) \<Rightarrow> string \<Rightarrow> string \<Rightarrow> string list \<Rightarrow> 'fs \<Rightarrow> nat \<Rightarrow> 'fs" where
  "fs_before env storeAt absoluteDir filenamePrefix ids fs 0 = fs"
| "fs_before env storeAt absoluteDir filenamePrefix ids fs (Suc k) =
     snd (saveImageToFile env (storeAt k) (ids ! k)
            (batch_filePath env absoluteDir filenamePrefix k)
            (fs_before env storeAt absoluteDir filenamePrefix ids fs k))"

definition member_try ::
  "'fs node_env \<Rightarrow> (nat \<Rightarrow> server) \<Rightarrow> string \<Rightarrow> string \<Rightarrow> string list \<Rightarrow> 'fs \<Rightarrow> nat
     \<Rightarrow> error + unit" where
  "member_try env storeAt absoluteDir filenamePrefix ids fs k =
     fst (saveImageToFile env (storeAt k) (ids ! k)
            (batch_filePath env absoluteDir filenamePrefix k)
            (fs_before env storeAt absoluteDir filenamePrefix ids fs k))"

definition member_saved ::
  "'fs node_env \<Rightarrow> (nat \<Rightarrow> server) \<Rightarrow> string \<Rightarrow> string \<Rightarrow> string list \<Rightarrow> 'fs \<Rightarrow> nat \<Rightarrow> bool" where
  "member_saved env storeAt absoluteDir filenamePrefix ids fs k =
     (case member_try env storeAt absoluteDir filenamePrefix ids fs k of
        Inr u \<Rightarrow> True | Inl e \<Rightarrow> False)"

definition member_error ::
  "'fs node_env \<Rightarrow> (nat \<Rightarrow> server) \<Rightarrow> string \<Rightarrow> string \<Rightarrow> string list \<Rightarrow> 'fs \<Rightarrow> nat \<Rightarrow> string" where
  "member_error env storeAt absoluteDir filenamePrefix ids fs k =
     (case member_try env storeAt absoluteDir filenamePrefix ids fs k of
        Inl e \<Rightarrow> message e | Inr u \<Rightarrow> [])"

definition spec_saved ::
  "'fs node_env \<Rightarrow> (nat \<Rightarrow> server) \<Rightarrow> string \<Rightarrow> string \<Rightarrow> string list \<Rightarrow> 'fs
     \<Rightarrow> (string \<times> string) list" where
  "spec_saved env storeAt absoluteDir filenamePrefix ids fs =
     map (\<lambda>k. (ids ! k, batch_filePath env absoluteDir filenamePrefix k))
         (filter (member_saved env storeAt absoluteDir filenamePrefix ids fs) [0..<length ids])"

definition spec_failed ::
  "'fs node_env \<Rightarrow> (nat \<Rightarrow> server) \<Rightarrow> string \<Rightarrow> string \<Rightarrow> string list \<Rightarrow> 'fs
     \<Rightarrow> (string \<times> string) list" where
  "spec_failed env storeAt absoluteDir filenamePrefix ids fs =
     map (\<lambda>k. (ids ! k, member_error env storeAt absoluteDir filenamePrefix ids fs k))
         (filter (\<lambda>k. \<not> member_saved env storeAt absoluteDir filenamePrefix ids fs k)
                 [0..<length ids])"

text \<open>The number a string of decimal digits stands for.\<close>

definition decimal_value :: "string \<Rightarrow> nat" where
  "decimal_value s = foldl (\<lambda>a c. 10 * a + (of_char c - 48)) 0 s"

section \<open>An example execution and an example environment\<close>

text \<open>
  Used to instantiate the theorems below. The environment has absolute, normalised paths
  (resolving changes nothing, joining puts a slash between), a file system that is the
  list of the files written, most recent first, and leaves the payload as it is.
  In \<open>demo_env_ro\<close> no directory can be created.
\<close>

definition demo_env :: "(string \<times> string) list node_env" where
  "demo_env =
     \<lparr>path_resolve = (\<lambda>p. p),
      path_join = (\<lambda>a b. a @ ''/'' @ b),
      path_dirname = (\<lambda>p. rev (drop 1 (dropWhile (\<lambda>c. c \<noteq> CHR ''/'') (rev p)))),
      fs_mkdir = (\<lambda>p fs. (None, fs)),
      fs_writeFile = (\<lambda>p d fs. (None, (p, d) # fs)),
      base64_decode = (\<lambda>d. d)\<rparr>"

definition demo_env_ro :: "(string \<times> string) list node_env" where
  "demo_env_ro = demo_env\<lparr>fs_mkdir := (\<lambda>p fs. (Some ''EACCES: permission denied'', fs))\<rparr>"

definition demo_gen :: "nat \<Rightarrow> string \<times> nat" where
  "demo_gen k = (''job_'' @ nat_to_string (k + 1), 100 + k)"

definition demo_prompts :: "BatchPrompt list" where
  "demo_prompts =
     [\<lparr>bp_prompt = ''a cat'', bp_aspectRatio = None, bp_model = None\<rparr>,
      \<lparr>bp_prompt = ''a dog'', bp_aspectRatio = Some ar_16_9, bp_model = None\<rparr>,
      \<lparr>bp_prompt = ''a fox'', bp_aspectRatio = None, bp_model = Some gemini_2_5_flash_image\<rparr>]"

text \<open>
  Three jobs are submitted and grouped into a batch; the third completes first, then the
  first fails; the second is still processing in \<open>demo5\<close> and fails in \<open>demo6\<close>.
\<close>

definition demo1 :: server where
  "demo1 = fst (generateImage init ''job_1'' 100 ''a cat'' ar_1_1 gemini_3_pro_image_preview)"

definition demo2 :: server where
  "demo2 = fst (generateImage demo1 ''job_2'' 101 ''a dog'' ar_16_9 gemini_3_pro_image_preview)"

definition demo3 :: server where
  "demo3 = fst (generateImage demo2 ''job_3'' 102 ''a fox'' ar_1_1 gemini_2_5_flash_image)"

definition demo4 :: server where
  "demo4 = createBatch demo3 ''batch_1'' [''job_1'', ''job_2'', ''job_3''] 3 103"

definition demo5 :: server where
  "demo5 = settle (settle demo4 ''job_3'' (Resolved (Some ''aGVsbG8='')) 110)
             ''job_1'' (Rejected ''quota exceeded'') 111"

definition demo6 :: server where
  "demo6 = settle demo5 ''job_2'' (Resolved None) 112"

text \<open>Instead of failing, the second job completes, after the third.\<close>

definition demo6b :: server where
  "demo6b = settle demo5 ''job_2'' (Resolved (Some ''d29ybGQ='')) 112"

text \<open>The store after a status check of the batch at time 120, when all members are done.\<close>

definition demo7 :: server where
  "demo7 = (case getBatchStatus demo6 ''batch_1'' 120 of Inr (r, st') \<Rightarrow> st' | Inl e \<Rightarrow> demo6)"

text \<open>
  A save of the batch that is called in \<open>demo5\<close>, while the second job is still
  processing; that job completes after the first member has been tried.
\<close>

definition demo_storeAt :: "nat \<Rightarrow> server" where
  "demo_storeAt k = (if k = 0 then demo5 else demo6b)"

text \<open>
  An environment whose working directory is \<^verbatim>\<open>/cwd\<close>: resolving a relative path puts
  the working directory in front of it, as \<^verbatim>\<open>path.resolve\<close> does.
\<close>

definition demo_env_rel :: "(string \<times> string) list node_env" where
  "demo_env_rel =
     demo_env\<lparr>path_resolve := (\<lambda>p. if take 1 p = ''/'' then p else ''/cwd/'' @ p)\<rparr>"

text \<open>A store that no execution produces: the batch lists an id that was never created.\<close>

definition ghost_store :: server where
  "ghost_store =
     \<lparr>jobs = [''job_1'' \<mapsto> \<lparr>job_id = ''job_1'', status = failed, prompt = ''a cat'',
                              result = None, error = Some ''quota exceeded'',
                              job_createdAt = 100, job_completedAt = Some 111\<rparr>],
      batchJobs = [''batch_1'' \<mapsto> \<lparr>batch_id = ''batch_1'', jobIds = [''job_1'', ''job_9''],
                                     totalCount = 2, batch_createdAt = 103,
                                     batch_completedAt = None\<rparr>],
      inflight = Map.empty\<rparr>"

section \<open>The aggregate status of a batch\<close>

lemma tally_job_counts:
  "completedCount (tally_job job t) = completedCount t + (if status job = completed then 1 else 0)"
  "failedCount (tally_job job t) = failedCount t + (if status job = failed then 1 else 0)"
  "pendingCount (tally_job job t) = pendingCount t + (if status job = pending then 1 else 0)"
  "processingCount (tally_job job t) = processingCount t + (if status job = processing then 1 else 0)"
  by (simp_all add: tally_job_def Let_def split: job_status.splits)

lemma tally_loop_counts:
  "completedCount (tally_loop st ids t) = completedCount t + count_status st ids completed"
  "failedCount (tally_loop st ids t) = failedCount t + count_status st ids failed"
  "pendingCount (tally_loop st ids t) = pendingCount t + count_status st ids pending"
  "processingCount (tally_loop st ids t) = processingCount t + count_status st ids processing"
  by (induction ids arbitrary: t; simp add: count_status_def tally_job_counts split: option.splits)+

lemma two_filters_cover:
  "length (filter P xs) + length (filter Q xs) = length xs \<Longrightarrow> \<forall>x. \<not> (P x \<and> Q x)
     \<Longrightarrow> \<forall>x \<in> set xs. P x \<or> Q x"
proof (induction xs)
  case Nil
  then show ?case by simp
next
  case (Cons a xs)
  have le: "length (filter P xs) + length (filter Q xs) \<le> length xs"
    using Cons.prems(2) 
    by (induction xs) auto
  show ?case using Cons le by (auto split: if_splits)
qed

lemma one_filter_all:
  "length (filter P xs) = length xs \<Longrightarrow> \<forall>x \<in> set xs. P x"
  by (metis filter_id_conv length_filter_less less_irrefl_nat set_filter) 


lemma getBatchStatus_Some:
  assumes "batchJobs st batchId = Some batch"
  shows "getBatchStatus st batchId now =
     Inr (\<lparr>r_batchId = batch_id batch,
           r_status = spec_aggregate (count_status st (jobIds batch) completed)
                        (count_status st (jobIds batch) failed)
                        (count_status st (jobIds batch) processing) (totalCount batch),
           r_totalCount = totalCount batch,
           r_completedCount = count_status st (jobIds batch) completed,
           r_failedCount = count_status st (jobIds batch) failed,
           r_pendingCount = count_status st (jobIds batch) pending,
           r_processingCount = count_status st (jobIds batch) processing,
           r_jobs = jobDetails (tally_loop st (jobIds batch)
                     \<lparr>completedCount = 0, failedCount = 0, pendingCount = 0,
                      processingCount = 0, jobDetails = []\<rparr>),
           r_createdAt = batch_createdAt batch,
           r_completedAt =
             (if count_status st (jobIds batch) completed + count_status st (jobIds batch) failed
                   = totalCount batch \<and> batch_completedAt batch = None
              then Some now else batch_completedAt batch)\<rparr>,
          st\<lparr>batchJobs := (batchJobs st)(batchId \<mapsto>
             (if count_status st (jobIds batch) completed + count_status st (jobIds batch) failed
                   = totalCount batch \<and> batch_completedAt batch = None
              then batch\<lparr>batch_completedAt := Some now\<rparr> else batch))\<rparr>)"
  using assms
  by (simp add: getBatchStatus_def Let_def tally_loop_counts spec_aggregate_def)

text \<open>
  Claim C1. For a known batch \<open>getBatchStatus\<close> returns a result whose four counts are
  the numbers of member ids whose job is stored with that status, and whose status is the
  one the precedence table of the specification gives for these counts and the batch's
  \<^verbatim>\<open>totalCount\<close>: failed if all are done and all failed, else partial if all are done and
  some failed, else completed if all are done, else processing if some member is
  processing or completed, else pending. When \<^verbatim>\<open>totalCount\<close> is the number of members,
  the status is failed only if every member is stored with status failed; and one
  completed member keeps an all-done batch from being failed: it is partial as soon as
  some member failed.
\<close>

theorem getBatchStatus_precedence:
  assumes "batchJobs st batchId = Some batch"
  shows "\<exists>r st'. getBatchStatus st batchId now = Inr (r, st')
      \<and> r_completedCount r = count_status st (jobIds batch) completed
      \<and> r_failedCount r = count_status st (jobIds batch) failed
      \<and> r_pendingCount r = count_status st (jobIds batch) pending
      \<and> r_processingCount r = count_status st (jobIds batch) processing
      \<and> r_totalCount r = totalCount batch
      \<and> r_status r = spec_aggregate (r_completedCount r) (r_failedCount r)
                        (r_processingCount r) (r_totalCount r)
      \<and> (totalCount batch = length (jobIds batch) \<longrightarrow> r_status r = batch_failed \<longrightarrow>
           (\<forall>i \<in> set (jobIds batch). map_option status (jobs st i) = Some failed))
      \<and> (r_completedCount r + r_failedCount r = r_totalCount r \<longrightarrow> 0 < r_completedCount r \<longrightarrow>
           r_status r \<noteq> batch_failed
           \<and> (0 < r_failedCount r \<longrightarrow> r_status r = batch_partial))"
proof -
  let ?c = "count_status st (jobIds batch) completed"
  let ?f = "count_status st (jobIds batch) failed"
  let ?p = "count_status st (jobIds batch) processing"
  let ?s = "spec_aggregate ?c ?f ?p (totalCount batch)"
  have all_failed: "\<forall>i \<in> set (jobIds batch). map_option status (jobs st i) = Some failed"
    if "?f = length (jobIds batch)"
    using that one_filter_all [of "\<lambda>i. map_option status (jobs st i) = Some failed" "jobIds batch"]
    by (simp add: count_status_def)
  have failed_iff: "?s = batch_failed \<Longrightarrow> ?f = totalCount batch"
    by (simp add: spec_aggregate_def Let_def split: if_splits)
  have demote: "?c + ?f = totalCount batch \<Longrightarrow> 0 < ?c \<Longrightarrow>
                  ?s \<noteq> batch_failed \<and> (0 < ?f \<longrightarrow> ?s = batch_partial)"
    by (simp add: spec_aggregate_def Let_def)
  have only_failed: "totalCount batch = length (jobIds batch) \<longrightarrow> ?s = batch_failed \<longrightarrow>
           (\<forall>i \<in> set (jobIds batch). map_option status (jobs st i) = Some failed)"
    using all_failed failed_iff by auto
  have demoted: "?c + ?f = totalCount batch \<longrightarrow> 0 < ?c \<longrightarrow>
                  ?s \<noteq> batch_failed \<and> (0 < ?f \<longrightarrow> ?s = batch_partial)"
    using demote by blast
  show ?thesis
    unfolding getBatchStatus_Some [OF assms]
    using only_failed demoted by simp
qed


lemmas demo_defs = demo1_def demo2_def demo3_def demo4_def demo5_def demo6_def
  generateImage_def createJob_def dispatch_def settle_def createBatch_def init_def job_fail_def

lemma demo6_batch:
  "batchJobs demo6 ''batch_1'' =
     Some \<lparr>batch_id = ''batch_1'', jobIds = [''job_1'', ''job_2'', ''job_3''], totalCount = 3,
           batch_createdAt = 103, batch_completedAt = None\<rparr>"
  by (simp add: demo_defs)

lemma demo6_jobs:
  "jobs demo6 ''job_1'' =
     Some \<lparr>job_id = ''job_1'', status = failed, prompt = ''a cat'', result = None,
           error = Some ''quota exceeded'', job_createdAt = 100, job_completedAt = Some 111\<rparr>"
  "jobs demo6 ''job_2'' =
     Some \<lparr>job_id = ''job_2'', status = failed, prompt = ''a dog'', result = None,
           error = Some ''No image data in response'', job_createdAt = 101,
           job_completedAt = Some 112\<rparr>"
  "jobs demo6 ''job_3'' =
     Some \<lparr>job_id = ''job_3'', status = completed, prompt = ''a fox'',
           result = Some ''aGVsbG8='', error = None, job_createdAt = 102,
           job_completedAt = Some 110\<rparr>"
  by (simp_all add: demo_defs)

theorem getBatchStatus_precedence_witness:
  "batchJobs demo6 ''batch_1'' =
     Some \<lparr>batch_id = ''batch_1'', jobIds = [''job_1'', ''job_2'', ''job_3''], totalCount = 3,
           batch_createdAt = 103, batch_completedAt = None\<rparr>
   \<and> (\<exists>r st'. getBatchStatus demo6 ''batch_1'' 120 = Inr (r, st')
         \<and> r_completedCount r = 1 \<and> r_failedCount r = 2 \<and> r_pendingCount r = 0
         \<and> r_processingCount r = 0 \<and> r_status r = batch_partial)"
proof -
  have counts:
    "count_status demo6 [''job_1'', ''job_2'', ''job_3''] completed = 1"
    "count_status demo6 [''job_1'', ''job_2'', ''job_3''] failed = 2"
    "count_status demo6 [''job_1'', ''job_2'', ''job_3''] pending = 0"
    "count_status demo6 [''job_1'', ''job_2'', ''job_3''] processing = 0"
    by (simp_all add: count_status_def demo6_jobs)
  show ?thesis
    using getBatchStatus_precedence [OF demo6_batch, of 120] counts
    by (auto simp: demo6_batch spec_aggregate_def)
qed

section \<open>What every execution preserves\<close>

lemma allDone_terminal:
  assumes "count_status st ids completed + count_status st ids failed = length ids"
    and "i \<in> set ids"
  shows "\<exists>job. jobs st i = Some job \<and> terminal (status job)"
proof -
  have "\<forall>x \<in> set ids. map_option status (jobs st x) = Some completed
                       \<or> map_option status (jobs st x) = Some failed"
    using assms(1) unfolding count_status_def
    by (intro two_filters_cover) auto
  with assms(2) show ?thesis
    by (auto simp: terminal_def)
qed

lemma settle_job_ok:
  "job_ok job \<Longrightarrow> status job = processing \<Longrightarrow> job_ok (settle_job job outcome now)"
  by (cases "(job, outcome, now)" rule: settle_job.cases)
     (auto simp: job_ok_def job_fail_def terminal_def)

lemma settle_job_id: "job_id (settle_job job outcome now) = job_id job"
  by (cases "(job, outcome, now)" rule: settle_job.cases) (auto simp: job_fail_def)

lemma settle_job_terminal: "terminal (status (settle_job job outcome now))"
  by (cases "(job, outcome, now)" rule: settle_job.cases) (auto simp: job_fail_def terminal_def)

lemma settle_job_trans:
  "status job = processing \<Longrightarrow> job_trans job (settle_job job outcome now)"
  by (cases "(job, outcome, now)" rule: settle_job.cases)
     (auto simp: job_trans_def job_fail_def)

lemma store_invI:
  assumes "\<And>jobId job. jobs st jobId = Some job \<Longrightarrow> job_ok job \<and> job_id job = jobId"
    and "\<And>jobId req. inflight st jobId = Some req \<Longrightarrow>
           \<exists>job. jobs st jobId = Some job \<and> status job = processing"
    and "\<And>batchId batch. batchJobs st batchId = Some batch \<Longrightarrow>
           batch_id batch = batchId \<and> totalCount batch = length (jobIds batch)
           \<and> set (jobIds batch) \<subseteq> dom (jobs st)"
    and "\<And>batchId batch t i. batchJobs st batchId = Some batch \<Longrightarrow>
           batch_completedAt batch = Some t \<Longrightarrow> i \<in> set (jobIds batch) \<Longrightarrow>
           \<exists>job. jobs st i = Some job \<and> terminal (status job)"
  shows "store_inv st"
  unfolding store_inv_def
proof (intro conjI allI impI ballI)
  fix batchId batch i
  assume "batchJobs st batchId = Some batch" "batch_completedAt batch \<noteq> None"
    "i \<in> set (jobIds batch)"
  then show "\<exists>job. jobs st i = Some job \<and> terminal (status job)"
    using assms(4) by blast
qed (use assms(1,2,3) in \<open>auto\<close>)

lemma store_inv_job:
  "store_inv st \<Longrightarrow> jobs st jobId = Some job \<Longrightarrow> job_ok job \<and> job_id job = jobId"
  unfolding store_inv_def by blast

lemma store_inv_inflight:
  "store_inv st \<Longrightarrow> inflight st jobId = Some req \<Longrightarrow>
     \<exists>job. jobs st jobId = Some job \<and> status job = processing"
  unfolding store_inv_def by (metis map_option_eq_Some)

lemma store_inv_batch:
  "store_inv st \<Longrightarrow> batchJobs st batchId = Some batch \<Longrightarrow>
     batch_id batch = batchId \<and> totalCount batch = length (jobIds batch)
     \<and> set (jobIds batch) \<subseteq> dom (jobs st)"
  unfolding store_inv_def by blast

lemma store_inv_stamped:
  "store_inv st \<Longrightarrow> batchJobs st batchId = Some batch \<Longrightarrow> batch_completedAt batch = Some t
     \<Longrightarrow> i \<in> set (jobIds batch) \<Longrightarrow> \<exists>job. jobs st i = Some job \<and> terminal (status job)"
  unfolding store_inv_def by (metis option.distinct(1))

lemma store_inv_init: "store_inv init"
  by (simp add: store_inv_def init_def)

lemma job_ok_pending:
  "job_ok \<lparr>job_id = jobId, status = pending, prompt = p, result = None, error = None,
           job_createdAt = now, job_completedAt = None\<rparr>"
  by (simp add: job_ok_def terminal_def)

lemma job_ok_processing:
  "job_ok job \<Longrightarrow> status job = pending \<Longrightarrow> job_ok (job\<lparr>status := processing\<rparr>)"
  by (simp add: job_ok_def terminal_def)

lemma store_inv_createJob:
  assumes inv: "store_inv st" and fresh: "jobId \<notin> dom (jobs st)"
  shows "store_inv (createJob st jobId now p)"
proof (rule store_invI)
  fix j job
  assume "jobs (createJob st jobId now p) j = Some job"
  then show "job_ok job \<and> job_id job = j"
    using store_inv_job [OF inv, of j job] job_ok_pending [of jobId p now]
    by (auto simp: createJob_def split: if_splits)
next
  fix j req
  assume "inflight (createJob st jobId now p) j = Some req"
  then have "inflight st j = Some req" by (simp add: createJob_def)
  from store_inv_inflight [OF inv this] fresh
  show "\<exists>job. jobs (createJob st jobId now p) j = Some job \<and> status job = processing"
    by (auto simp: createJob_def)
next
  fix b batch
  assume "batchJobs (createJob st jobId now p) b = Some batch"
  then have "batchJobs st b = Some batch" by (simp add: createJob_def)
  from store_inv_batch [OF inv this]
  show "batch_id batch = b \<and> totalCount batch = length (jobIds batch)
        \<and> set (jobIds batch) \<subseteq> dom (jobs (createJob st jobId now p))"
    by (auto simp: createJob_def)
next
  fix b batch t i
  assume "batchJobs (createJob st jobId now p) b = Some batch"
    and t: "batch_completedAt batch = Some t" and i: "i \<in> set (jobIds batch)"
  then have "batchJobs st b = Some batch" by (simp add: createJob_def)
  from store_inv_stamped [OF inv this t i] fresh
  show "\<exists>job. jobs (createJob st jobId now p) i = Some job \<and> terminal (status job)"
    by (auto simp: createJob_def)
qed

lemma store_inv_dispatch:
  assumes inv: "store_inv st" and job: "jobs st jobId = Some job" and pend: "status job = pending"
  shows "store_inv (dispatch st jobId req)"
proof (rule store_invI)
  fix j job'
  assume "jobs (dispatch st jobId req) j = Some job'"
  then show "job_ok job' \<and> job_id job' = j"
    using store_inv_job [OF inv, of j job'] store_inv_job [OF inv job]
      job_ok_processing [OF _ pend] job
    by (auto simp: dispatch_def split: if_splits)
next
  fix j r
  assume "inflight (dispatch st jobId req) j = Some r"
  then have "j = jobId \<or> inflight st j = Some r"
    using job by (auto simp: dispatch_def split: if_splits)
  then show "\<exists>job. jobs (dispatch st jobId req) j = Some job \<and> status job = processing"
    using store_inv_inflight [OF inv, of j r] job
    by (auto simp: dispatch_def)
next
  fix b batch
  assume "batchJobs (dispatch st jobId req) b = Some batch"
  then have "batchJobs st b = Some batch" using job by (simp add: dispatch_def)
  from store_inv_batch [OF inv this]
  show "batch_id batch = b \<and> totalCount batch = length (jobIds batch)
        \<and> set (jobIds batch) \<subseteq> dom (jobs (dispatch st jobId req))"
    using job by (auto simp: dispatch_def)
next
  fix b batch t i
  assume "batchJobs (dispatch st jobId req) b = Some batch"
    and t: "batch_completedAt batch = Some t" and i: "i \<in> set (jobIds batch)"
  then have "batchJobs st b = Some batch" using job by (simp add: dispatch_def)
  from store_inv_stamped [OF inv this t i] job pend
  show "\<exists>job. jobs (dispatch st jobId req) i = Some job \<and> terminal (status job)"
    by (auto simp: dispatch_def terminal_def)
qed

lemma store_inv_settle:
  assumes inv: "store_inv st" and fl: "inflight st jobId = Some req"
  shows "store_inv (settle st jobId outcome now)"
proof -
  from store_inv_inflight [OF inv fl] obtain job
    where job: "jobs st jobId = Some job" and proc: "status job = processing" by blast
  have ok: "job_ok job" and jid: "job_id job = jobId"
    using store_inv_job [OF inv job] by simp_all
  show ?thesis
  proof (rule store_invI)
    fix j job'
    assume "jobs (settle st jobId outcome now) j = Some job'"
    then show "job_ok job' \<and> job_id job' = j"
      using store_inv_job [OF inv, of j job'] settle_job_ok [OF ok proc, of outcome now]
        settle_job_id [of job outcome now] jid job
      by (auto simp: settle_def split: if_splits)
  next
    fix j r
    assume "inflight (settle st jobId outcome now) j = Some r"
    then have "j \<noteq> jobId" "inflight st j = Some r"
      using job by (auto simp: settle_def split: if_splits)
    then show "\<exists>job. jobs (settle st jobId outcome now) j = Some job \<and> status job = processing"
      using store_inv_inflight [OF inv, of j r] job
      by (auto simp: settle_def)
  next
    fix b batch
    assume "batchJobs (settle st jobId outcome now) b = Some batch"
    then have "batchJobs st b = Some batch" using job by (simp add: settle_def)
    from store_inv_batch [OF inv this]
    show "batch_id batch = b \<and> totalCount batch = length (jobIds batch)
          \<and> set (jobIds batch) \<subseteq> dom (jobs (settle st jobId outcome now))"
      using job by (auto simp: settle_def)
  next
    fix b batch t i
    assume "batchJobs (settle st jobId outcome now) b = Some batch"
      and t: "batch_completedAt batch = Some t" and i: "i \<in> set (jobIds batch)"
    then have "batchJobs st b = Some batch" using job by (simp add: settle_def)
    from store_inv_stamped [OF inv this t i] job settle_job_terminal [of job outcome now]
    show "\<exists>job. jobs (settle st jobId outcome now) i = Some job \<and> terminal (status job)"
      by (auto simp: settle_def)
  qed
qed

lemma store_inv_createBatch:
  assumes inv: "store_inv st" and fresh: "batchId \<notin> dom (batchJobs st)"
    and ids: "set ids \<subseteq> dom (jobs st)"
  shows "store_inv (createBatch st batchId ids (length ids) now)"
proof (rule store_invI)
  fix j job
  assume "jobs (createBatch st batchId ids (length ids) now) j = Some job"
  then show "job_ok job \<and> job_id job = j"
    using store_inv_job [OF inv, of j job] by (simp add: createBatch_def)
next
  fix j r
  assume "inflight (createBatch st batchId ids (length ids) now) j = Some r"
  then show "\<exists>job. jobs (createBatch st batchId ids (length ids) now) j = Some job
                   \<and> status job = processing"
    using store_inv_inflight [OF inv, of j r] by (simp add: createBatch_def)
next
  fix b batch
  assume "batchJobs (createBatch st batchId ids (length ids) now) b = Some batch"
  then show "batch_id batch = b \<and> totalCount batch = length (jobIds batch)
        \<and> set (jobIds batch) \<subseteq> dom (jobs (createBatch st batchId ids (length ids) now))"
    using store_inv_batch [OF inv, of b batch] ids
    by (auto simp: createBatch_def split: if_splits)
next
  fix b batch t i
  assume "batchJobs (createBatch st batchId ids (length ids) now) b = Some batch"
    and t: "batch_completedAt batch = Some t" and i: "i \<in> set (jobIds batch)"
  then show "\<exists>job. jobs (createBatch st batchId ids (length ids) now) i = Some job
                   \<and> terminal (status job)"
    using store_inv_stamped [OF inv _ t i, of b]
    by (auto simp: createBatch_def split: if_splits)
qed


lemma getBatchStatus_Inr:
  assumes "getBatchStatus st batchId now = Inr (r, st')"
  obtains batch where "batchJobs st batchId = Some batch"
    and "st' = st\<lparr>batchJobs := (batchJobs st)(batchId \<mapsto> stamp st batch now)\<rparr>"
proof (cases "batchJobs st batchId")
  case None
  with assms show ?thesis by (simp add: getBatchStatus_def)
next
  case (Some batch)
  with assms that show ?thesis
    by (simp add: getBatchStatus_Some stamp_def)
qed

lemma stamp_fields:
  "batch_id (stamp st batch now) = batch_id batch"
  "jobIds (stamp st batch now) = jobIds batch"
  "totalCount (stamp st batch now) = totalCount batch"
  "batch_createdAt (stamp st batch now) = batch_createdAt batch"
  by (simp_all add: stamp_def)

lemma stamp_set:
  "batch_completedAt batch = Some t \<Longrightarrow> stamp st batch now = batch"
  by (simp add: stamp_def)

lemma stamp_completedAt:
  "batch_completedAt batch = None \<Longrightarrow> batch_completedAt (stamp st batch now) = Some t \<Longrightarrow>
     count_status st (jobIds batch) completed + count_status st (jobIds batch) failed
       = totalCount batch"
  by (simp add: stamp_def split: if_splits)

lemma store_inv_aggregate:
  assumes inv: "store_inv st" and agg: "getBatchStatus st batchId now = Inr (r, st')"
  shows "store_inv st'"
proof -
  from agg obtain batch where batch: "batchJobs st batchId = Some batch"
    and st': "st' = st\<lparr>batchJobs := (batchJobs st)(batchId \<mapsto> stamp st batch now)\<rparr>"
    by (rule getBatchStatus_Inr)
  show ?thesis
  proof (rule store_invI)
    fix j job
    assume "jobs st' j = Some job"
    then show "job_ok job \<and> job_id job = j"
      using store_inv_job [OF inv, of j job] by (simp add: st')
  next
    fix j q
    assume "inflight st' j = Some q"
    then show "\<exists>job. jobs st' j = Some job \<and> status job = processing"
      using store_inv_inflight [OF inv, of j q] by (simp add: st')
  next
    fix b batch'
    assume "batchJobs st' b = Some batch'"
    then show "batch_id batch' = b \<and> totalCount batch' = length (jobIds batch')
          \<and> set (jobIds batch') \<subseteq> dom (jobs st')"
      using store_inv_batch [OF inv, of b batch'] store_inv_batch [OF inv batch]
      by (auto simp: st' stamp_fields split: if_splits)
  next
    fix b batch' t i
    assume b: "batchJobs st' b = Some batch'"
      and t: "batch_completedAt batch' = Some t" and i: "i \<in> set (jobIds batch')"
    show "\<exists>job. jobs st' i = Some job \<and> terminal (status job)"
    proof (cases "b = batchId")
      case False
      with b have "batchJobs st b = Some batch'" by (simp add: st')
      from store_inv_stamped [OF inv this t i] show ?thesis by (simp add: st')
    next
      case True
      with b have eq: "batch' = stamp st batch now" by (simp add: st')
      show ?thesis
      proof (cases "batch_completedAt batch")
        case (Some u)
        then have "batch' = batch" by (simp add: eq stamp_set)
        with store_inv_stamped [OF inv batch Some] i show ?thesis by (simp add: st')
      next
        case None
        from stamp_completedAt [OF None] t eq
        have "count_status st (jobIds batch) completed + count_status st (jobIds batch) failed
                = totalCount batch" by simp
        moreover have "totalCount batch = length (jobIds batch)"
          using store_inv_batch [OF inv batch] by simp
        moreover have "i \<in> set (jobIds batch)" using i by (simp add: eq stamp_fields)
        ultimately show ?thesis
          using allDone_terminal [of st "jobIds batch" i] by (simp add: st')
      qed
    qed
  qed
qed

lemma store_inv_step: "step st st' \<Longrightarrow> store_inv st \<Longrightarrow> store_inv st'"
proof (induction rule: step.induct)
  case (step_create jobId st now p)
  then show ?case by (simp add: store_inv_createJob)
next
  case (step_dispatch st jobId job req)
  then show ?case by (simp add: store_inv_dispatch)
next
  case (step_settle jobId st outcome now)
  then show ?case by (auto intro: store_inv_settle)
next
  case (step_batch batchId st ids now)
  then show ?case by (simp add: store_inv_createBatch)
next
  case (step_aggregate st batchId now r st')
  then show ?case by (auto intro: store_inv_aggregate)
qed

lemma store_inv_steps: "step\<^sup>*\<^sup>* st st' \<Longrightarrow> store_inv st \<Longrightarrow> store_inv st'"
  by (induction rule: rtranclp_induct) (auto intro: store_inv_step)

lemma reachable_inv: "reachable st \<Longrightarrow> store_inv st"
  unfolding reachable_def using store_inv_steps store_inv_init by blast

section \<open>The life of a job\<close>

lemma job_trans_rank:
  "job_trans job job' \<Longrightarrow> status_rank (status job) < status_rank (status job')"
  by (auto simp: job_trans_def split: job_status.splits)

lemma job_trans_steps_rank:
  "job_trans\<^sup>*\<^sup>* job job' \<Longrightarrow> status_rank (status job) \<le> status_rank (status job')"
proof (induction rule: rtranclp_induct)
  case base
  show ?case by simp
next
  case (step y z)
  then show ?case using job_trans_rank [of y z] by simp
qed

lemma job_trans_steps_same:
  assumes "job_trans\<^sup>*\<^sup>* job job'" and "status job' = status job"
  shows "job' = job"
  using assms
proof (cases rule: rtranclp.cases)
  case rtrancl_refl
  then show ?thesis by simp
next
  case (rtrancl_into_rtrancl b)
  then have "status_rank (status job) \<le> status_rank (status b)"
    and "status_rank (status b) < status_rank (status job')"
    using job_trans_steps_rank job_trans_rank by auto
  with assms(2) show ?thesis by simp
qed

lemma job_trans_steps_terminal:
  assumes "job_trans\<^sup>*\<^sup>* job job'" and "terminal (status job)"
  shows "job' = job"
proof -
  have "status_rank (status job) \<le> status_rank (status job')"
    using assms(1) by (rule job_trans_steps_rank)
  moreover have "status_rank (status job) = 2"
    using assms(2) by (auto simp: terminal_def)
  moreover have "status_rank s \<le> 2" for s by (cases s) auto
  ultimately have "status_rank (status job') = status_rank (status job)"
    by (metis le_antisym)
  show ?thesis
    using assms(1)
  proof (cases rule: rtranclp.cases)
    case rtrancl_refl
    then show ?thesis by simp
  next
    case (rtrancl_into_rtrancl b)
    then have "status_rank (status job) \<le> status_rank (status b)"
      and "status_rank (status b) < status_rank (status job')"
      using job_trans_steps_rank job_trans_rank by auto
    with \<open>status_rank (status job') = status_rank (status job)\<close> show ?thesis by simp
  qed
qed

lemma step_job:
  assumes "step st st'" and "store_inv st" and "jobs st jobId = Some job"
  shows "\<exists>job'. jobs st' jobId = Some job' \<and> (job' = job \<or> job_trans job job')"
  using assms
proof (induction rule: step.induct)
  case (step_create j st now p)
  then show ?case by (auto simp: createJob_def)
next
  case (step_dispatch st j job0 req)
  then show ?case by (auto simp: dispatch_def job_trans_def)
next
  case (step_settle j st outcome now)
  then obtain req where "inflight st j = Some req" by auto
  from store_inv_inflight [OF step_settle.prems(1) this] obtain job0
    where "jobs st j = Some job0" "status job0 = processing" by blast
  then show ?case
    using step_settle.prems(2) settle_job_trans [of job0 outcome now]
    by (auto simp: settle_def)
next
  case (step_batch batchId st ids now)
  then show ?case by (simp add: createBatch_def)
next
  case (step_aggregate st batchId now r st')
  from step_aggregate.hyps obtain batch where
    "st' = st\<lparr>batchJobs := (batchJobs st)(batchId \<mapsto> stamp st batch now)\<rparr>"
    by (rule getBatchStatus_Inr)
  with step_aggregate.prems show ?case by simp
qed

lemma steps_job:
  assumes "step\<^sup>*\<^sup>* st st'" and "store_inv st" and "jobs st jobId = Some job"
  shows "\<exists>job'. jobs st' jobId = Some job' \<and> job_trans\<^sup>*\<^sup>* job job'"
  using assms
proof (induction rule: rtranclp_induct)
  case base
  then show ?case by auto
next
  case (step y z)
  then obtain job1 where j1: "jobs y jobId = Some job1" "job_trans\<^sup>*\<^sup>* job job1" by blast
  have "store_inv y" using step.hyps(1) step.prems(1) by (rule store_inv_steps)
  from step_job [OF step.hyps(2) this j1(1)] obtain job2
    where "jobs z jobId = Some job2" "job2 = job1 \<or> job_trans job1 job2" by blast
  with j1(2) show ?case by (auto intro: rtranclp.rtrancl_into_rtrancl)
qed

text \<open>
  Claim C2. Take any reachable state of the stores, any job in it, and any further
  sequence of steps. The job is still stored under its id, and its record has gone
  through a chain of legal changes only (pending to processing, processing to completed
  with result and completion time set, processing to failed with error and completion
  time set): its status never moves back, a record whose status is unchanged is
  unchanged as a whole, and a record in a terminal state is unchanged. In the record
  reached, the result is set exactly if the status is completed, the error exactly if it
  is failed, never both, and the completion time exactly if the status is terminal.
  Executions are those of \<open>step\<close>: the identifier generator returns unused ids.
\<close>

theorem job_lifecycle:
  assumes "reachable st" and "step\<^sup>*\<^sup>* st st'" and "jobs st jobId = Some job"
  shows "\<exists>job'. jobs st' jobId = Some job'
           \<and> job_trans\<^sup>*\<^sup>* job job'
           \<and> status_rank (status job) \<le> status_rank (status job')
           \<and> (status job' = status job \<longrightarrow> job' = job)
           \<and> (terminal (status job) \<longrightarrow> job' = job)
           \<and> (result job' \<noteq> None) = (status job' = completed)
           \<and> (error job' \<noteq> None) = (status job' = failed)
           \<and> \<not> (result job' \<noteq> None \<and> error job' \<noteq> None)
           \<and> (job_completedAt job' \<noteq> None) = terminal (status job')"
proof -
  have inv: "store_inv st" using assms(1) by (rule reachable_inv)
  from steps_job [OF assms(2) inv assms(3)] obtain job'
    where j: "jobs st' jobId = Some job'" and tr: "job_trans\<^sup>*\<^sup>* job job'" by blast
  have "store_inv st'" using assms(2) inv by (rule store_inv_steps)
  then have ok: "job_ok job'" using j store_inv_job by blast
  have "(result job' \<noteq> None) = (status job' = completed)"
    "(error job' \<noteq> None) = (status job' = failed)"
    "\<not> (result job' \<noteq> None \<and> error job' \<noteq> None)"
    "(job_completedAt job' \<noteq> None) = terminal (status job')"
    using ok by (auto simp: job_ok_def)
  then show ?thesis
    using j tr job_trans_steps_rank [OF tr] job_trans_steps_same [OF tr]
      job_trans_steps_terminal [OF tr]
    by blast
qed


lemma generateImage_steps:
  assumes "jobId \<notin> dom (jobs st)"
  shows "step\<^sup>*\<^sup>* st (fst (generateImage st jobId now p aspectRatio model))"
proof -
  let ?st1 = "createJob st jobId now p"
  have 1: "step st ?st1" using assms by (rule step_create)
  have "jobs ?st1 jobId = Some \<lparr>job_id = jobId, status = pending, prompt = p, result = None,
          error = None, job_createdAt = now, job_completedAt = None\<rparr>"
    by (simp add: createJob_def)
  then have 2: "step ?st1 (dispatch ?st1 jobId
       \<lparr>req_model = model, req_contents = p, req_aspectRatio = aspectRatio\<rparr>)"
    by (rule step_dispatch) simp
  from 1 2 show ?thesis by (simp add: generateImage_def)
qed

lemma reachable_steps: "reachable st \<Longrightarrow> step\<^sup>*\<^sup>* st st' \<Longrightarrow> reachable st'"
  unfolding reachable_def by (rule rtranclp_trans)

lemma reachable_init: "reachable init"
  by (simp add: reachable_def)

lemma demo_steps:
  "step\<^sup>*\<^sup>* init (createJob init ''job_1'' 100 ''a cat'')"
  "step\<^sup>*\<^sup>* (createJob init ''job_1'' 100 ''a cat'') demo1"
  "step\<^sup>*\<^sup>* demo1 demo2"
  "step\<^sup>*\<^sup>* demo2 demo3"
  "step\<^sup>*\<^sup>* demo3 demo4"
  "step\<^sup>*\<^sup>* demo4 demo5"
  "step\<^sup>*\<^sup>* demo5 demo6"
proof -
  show "step\<^sup>*\<^sup>* init (createJob init ''job_1'' 100 ''a cat'')"
    by (rule r_into_rtranclp, rule step_create) (simp add: init_def)
  have "step (createJob init ''job_1'' 100 ''a cat'')
          (dispatch (createJob init ''job_1'' 100 ''a cat'') ''job_1''
             \<lparr>req_model = gemini_3_pro_image_preview, req_contents = ''a cat'',
              req_aspectRatio = ar_1_1\<rparr>)"
    by (rule step_dispatch [where job = "\<lparr>job_id = ''job_1'', status = pending,
          prompt = ''a cat'', result = None, error = None, job_createdAt = 100,
          job_completedAt = None\<rparr>"]) (simp_all add: createJob_def)
  then show "step\<^sup>*\<^sup>* (createJob init ''job_1'' 100 ''a cat'') demo1"
    by (simp add: demo1_def generateImage_def)
  show "step\<^sup>*\<^sup>* demo1 demo2"
    unfolding demo2_def by (rule generateImage_steps) (simp add: demo_defs)
  show "step\<^sup>*\<^sup>* demo2 demo3"
    unfolding demo3_def by (rule generateImage_steps) (simp add: demo_defs)
  have "step demo3 (createBatch demo3 ''batch_1'' [''job_1'', ''job_2'', ''job_3'']
                      (length [''job_1'', ''job_2'', ''job_3'']) 103)"
    by (rule step_batch) (simp_all add: demo_defs)
  then show "step\<^sup>*\<^sup>* demo3 demo4"
    by (simp add: demo4_def eval_nat_numeral)
  have a: "step demo4 (settle demo4 ''job_3'' (Resolved (Some ''aGVsbG8='')) 110)"
    by (rule step_settle) (simp add: demo_defs)
  have b: "step (settle demo4 ''job_3'' (Resolved (Some ''aGVsbG8='')) 110) demo5"
    unfolding demo5_def by (rule step_settle) (simp add: demo_defs)
  from a b show "step\<^sup>*\<^sup>* demo4 demo5" by simp
  show "step\<^sup>*\<^sup>* demo5 demo6"
    unfolding demo6_def by (rule r_into_rtranclp, rule step_settle) (simp add: demo_defs)
qed

lemma demo_reachable:
  "reachable (createJob init ''job_1'' 100 ''a cat'')"
  "reachable demo1" "reachable demo2" "reachable demo3" "reachable demo4"
  "reachable demo5" "reachable demo6"
proof -
  show 0: "reachable (createJob init ''job_1'' 100 ''a cat'')"
    using reachable_init demo_steps(1) by (rule reachable_steps)
  show 1: "reachable demo1" using 0 demo_steps(2) by (rule reachable_steps)
  show 2: "reachable demo2" using 1 demo_steps(3) by (rule reachable_steps)
  show 3: "reachable demo3" using 2 demo_steps(4) by (rule reachable_steps)
  show 4: "reachable demo4" using 3 demo_steps(5) by (rule reachable_steps)
  show 5: "reachable demo5" using 4 demo_steps(6) by (rule reachable_steps)
  show "reachable demo6" using 5 demo_steps(7) by (rule reachable_steps)
qed

theorem job_lifecycle_witness:
  "reachable (createJob init ''job_1'' 100 ''a cat'')
   \<and> step\<^sup>*\<^sup>* (createJob init ''job_1'' 100 ''a cat'') demo6
   \<and> jobs (createJob init ''job_1'' 100 ''a cat'') ''job_1'' =
       Some \<lparr>job_id = ''job_1'', status = pending, prompt = ''a cat'', result = None,
             error = None, job_createdAt = 100, job_completedAt = None\<rparr>
   \<and> (\<exists>job'. jobs demo6 ''job_1'' = Some job'
         \<and> status job' = failed \<and> result job' = None \<and> error job' = Some ''quota exceeded''
         \<and> job_completedAt job' = Some 111
         \<and> job_trans\<^sup>*\<^sup>* \<lparr>job_id = ''job_1'', status = pending, prompt = ''a cat'',
                          result = None, error = None, job_createdAt = 100,
                          job_completedAt = None\<rparr> job')"
proof -
  let ?st = "createJob init ''job_1'' 100 ''a cat''"
  have s: "step\<^sup>*\<^sup>* ?st demo6"
    using demo_steps(2-7) by (meson rtranclp_trans)
  have j: "jobs ?st ''job_1'' =
       Some \<lparr>job_id = ''job_1'', status = pending, prompt = ''a cat'', result = None,
             error = None, job_createdAt = 100, job_completedAt = None\<rparr>"
    by (simp add: createJob_def)
  show ?thesis
    using job_lifecycle [OF demo_reachable(1) s j] demo_reachable(1) s j demo6_jobs(1)
    by auto
qed

section \<open>Saving one image\<close>

lemma completed_has_result:
  assumes "store_inv st" and "jobs st jobId = Some job" and "status job = completed"
  shows "\<exists>d. result job = Some d \<and> d \<noteq> []"
  using store_inv_job [OF assms(1,2)] assms(3)
  by (auto simp: job_ok_def)

lemma demo5_jobs:
  "jobs demo5 ''job_1'' =
     Some \<lparr>job_id = ''job_1'', status = failed, prompt = ''a cat'', result = None,
           error = Some ''quota exceeded'', job_createdAt = 100, job_completedAt = Some 111\<rparr>"
  "jobs demo5 ''job_2'' =
     Some \<lparr>job_id = ''job_2'', status = processing, prompt = ''a dog'', result = None,
           error = None, job_createdAt = 101, job_completedAt = None\<rparr>"
  "jobs demo5 ''job_3'' =
     Some \<lparr>job_id = ''job_3'', status = completed, prompt = ''a fox'',
           result = Some ''aGVsbG8='', error = None, job_createdAt = 102,
           job_completedAt = Some 110\<rparr>"
  "jobs demo5 ''job_9'' = None"
  by (simp_all add: demo_defs)

text \<open>
  Claim C3. In a reachable state, \<open>saveImageToFile\<close> fails with the not-found error
  when the id is not in the job store; fails with the not-completed error when the job's
  status is pending, processing or failed; and, for a completed job, fails with the
  path error when the resolved path does not end in \<^verbatim>\<open>.png\<close>. In these three cases the
  file system is returned as it was, whatever \<^verbatim>\<open>mkdir\<close> and \<^verbatim>\<open>writeFile\<close> would do.
  Otherwise the outcome is that of creating the parent directory of the resolved path
  and then writing the decoded result there.
\<close>

theorem saveImageToFile_cases:
  assumes "reachable st"
  shows "(jobs st jobId = None \<longrightarrow>
            saveImageToFile env st jobId filePath fs = (Inl (JobNotFound jobId), fs))
       \<and> (\<forall>job. jobs st jobId = Some job \<and> status job \<noteq> completed \<longrightarrow>
            saveImageToFile env st jobId filePath fs
              = (Inl (JobNotCompleted jobId (status job)), fs))
       \<and> (\<forall>job. jobs st jobId = Some job \<and> status job = completed
                \<and> \<not> endsWith (path_resolve env filePath) ''.png'' \<longrightarrow>
            saveImageToFile env st jobId filePath fs = (Inl PathNotPng, fs))
       \<and> (\<forall>job. jobs st jobId = Some job \<and> status job = completed
                \<and> endsWith (path_resolve env filePath) ''.png'' \<longrightarrow>
            (\<exists>d. result job = Some d \<and>
              saveImageToFile env st jobId filePath fs =
                (case fs_mkdir env (path_dirname env (path_resolve env filePath)) fs of
                   (Some m, fs1) \<Rightarrow> (Inl (IOError m), fs1)
                 | (None, fs1) \<Rightarrow>
                     (case fs_writeFile env (path_resolve env filePath)
                             (base64_decode env d) fs1 of
                        (Some m, fs2) \<Rightarrow> (Inl (IOError m), fs2)
                      | (None, fs2) \<Rightarrow> (Inr (), fs2)))))"
proof -
  have inv: "store_inv st" using assms by (rule reachable_inv)
  have 1: "jobs st jobId = None \<longrightarrow>
            saveImageToFile env st jobId filePath fs = (Inl (JobNotFound jobId), fs)"
    by (simp add: saveImageToFile_def)
  have 2: "\<forall>job. jobs st jobId = Some job \<and> status job \<noteq> completed \<longrightarrow>
            saveImageToFile env st jobId filePath fs
              = (Inl (JobNotCompleted jobId (status job)), fs)"
    by (simp add: saveImageToFile_def)
  have 3: "\<forall>job. jobs st jobId = Some job \<and> status job = completed
                \<and> \<not> endsWith (path_resolve env filePath) ''.png'' \<longrightarrow>
            saveImageToFile env st jobId filePath fs = (Inl PathNotPng, fs)"
    using completed_has_result [OF inv]
    by (fastforce simp: saveImageToFile_def Let_def)
  have 4: "\<forall>job. jobs st jobId = Some job \<and> status job = completed
                \<and> endsWith (path_resolve env filePath) ''.png'' \<longrightarrow>
            (\<exists>d. result job = Some d \<and>
              saveImageToFile env st jobId filePath fs =
                (case fs_mkdir env (path_dirname env (path_resolve env filePath)) fs of
                   (Some m, fs1) \<Rightarrow> (Inl (IOError m), fs1)
                 | (None, fs1) \<Rightarrow>
                     (case fs_writeFile env (path_resolve env filePath)
                             (base64_decode env d) fs1 of
                        (Some m, fs2) \<Rightarrow> (Inl (IOError m), fs2)
                      | (None, fs2) \<Rightarrow> (Inr (), fs2))))"
  proof (intro allI impI, elim conjE)
    fix job
    assume job: "jobs st jobId = Some job" and c: "status job = completed"
      and png: "endsWith (path_resolve env filePath) ''.png''"
    from completed_has_result [OF inv job c] obtain d
      where d: "result job = Some d" "d \<noteq> []" by blast
    have "saveImageToFile env st jobId filePath fs =
                (case fs_mkdir env (path_dirname env (path_resolve env filePath)) fs of
                   (Some m, fs1) \<Rightarrow> (Inl (IOError m), fs1)
                 | (None, fs1) \<Rightarrow>
                     (case fs_writeFile env (path_resolve env filePath)
                             (base64_decode env d) fs1 of
                        (Some m, fs2) \<Rightarrow> (Inl (IOError m), fs2)
                      | (None, fs2) \<Rightarrow> (Inr (), fs2)))"
      using job c png d
      by (simp add: saveImageToFile_def Let_def split: prod.splits option.splits)
    with d(1) show "\<exists>d. result job = Some d \<and>
              saveImageToFile env st jobId filePath fs =
                (case fs_mkdir env (path_dirname env (path_resolve env filePath)) fs of
                   (Some m, fs1) \<Rightarrow> (Inl (IOError m), fs1)
                 | (None, fs1) \<Rightarrow>
                     (case fs_writeFile env (path_resolve env filePath)
                             (base64_decode env d) fs1 of
                        (Some m, fs2) \<Rightarrow> (Inl (IOError m), fs2)
                      | (None, fs2) \<Rightarrow> (Inr (), fs2)))"
      by blast
  qed
  from 1 2 3 4 show ?thesis by blast
qed

theorem saveImageToFile_cases_witness:
  "reachable demo5
   \<and> saveImageToFile demo_env demo5 ''job_9'' ''/out/a.png'' []
       = (Inl (JobNotFound ''job_9''), [])
   \<and> saveImageToFile demo_env demo5 ''job_2'' ''/out/a.png'' []
       = (Inl (JobNotCompleted ''job_2'' processing), [])
   \<and> saveImageToFile demo_env demo5 ''job_1'' ''/out/a.png'' []
       = (Inl (JobNotCompleted ''job_1'' failed), [])
   \<and> saveImageToFile demo_env demo5 ''job_3'' ''/out/a.jpg'' [] = (Inl PathNotPng, [])
   \<and> saveImageToFile demo_env demo5 ''job_3'' ''/out/a.png'' []
       = (Inr (), [(''/out/a.png'', ''aGVsbG8='')])"
  using saveImageToFile_cases [OF demo_reachable(6), of "''job_9''" demo_env "''/out/a.png''" "[]"]
    saveImageToFile_cases [OF demo_reachable(6), of "''job_2''" demo_env "''/out/a.png''" "[]"]
    saveImageToFile_cases [OF demo_reachable(6), of "''job_1''" demo_env "''/out/a.png''" "[]"]
    saveImageToFile_cases [OF demo_reachable(6), of "''job_3''" demo_env "''/out/a.jpg''" "[]"]
    saveImageToFile_cases [OF demo_reachable(6), of "''job_3''" demo_env "''/out/a.png''" "[]"]
    demo_reachable(6)
  by (simp add: demo5_jobs demo_env_def endsWith_def)

text \<open>
  Claim C10. In a reachable state a completed job has a non-empty result, so
  \<open>saveImageToFile\<close> never fails with the no-result-data error, for any job id, path,
  environment and file system.
\<close>

theorem saveImageToFile_no_result_unreachable:
  assumes "reachable st"
  shows "fst (saveImageToFile env st jobId filePath fs) \<noteq> Inl (JobNoResult j)"
proof -
  have inv: "store_inv st" using assms by (rule reachable_inv)
  show ?thesis
  proof (cases "jobs st jobId")
    case None
    then show ?thesis by (simp add: saveImageToFile_def)
  next
    case (Some job)
    show ?thesis
    proof (cases "status job = completed")
      case False
      with Some show ?thesis by (simp add: saveImageToFile_def)
    next
      case True
      from completed_has_result [OF inv Some True] obtain d
        where "result job = Some d" "d \<noteq> []" by blast
      with Some True show ?thesis
        by (simp add: saveImageToFile_def Let_def split: prod.splits option.splits)
    qed
  qed
qed


theorem saveImageToFile_no_result_unreachable_witness:
  "reachable demo5
   \<and> fst (saveImageToFile demo_env demo5 ''job_3'' ''/out/a.png'' []) \<noteq> Inl (JobNoResult ''job_3'')
   \<and> fst (saveImageToFile demo_env demo5 ''job_2'' ''/out/a.png'' []) \<noteq> Inl (JobNoResult ''job_2'')"
  using saveImageToFile_no_result_unreachable [OF demo_reachable(6), of demo_env "''job_3''"
          "''/out/a.png''" "[]" "''job_3''"]
    saveImageToFile_no_result_unreachable [OF demo_reachable(6), of demo_env "''job_2''"
          "''/out/a.png''" "[]" "''job_2''"]
    demo_reachable(6)
  by simp

section \<open>Submitting a job\<close>

text \<open>
  Claim C9. \<open>generateImage\<close> returns the job id without the outcome of the generation
  call, which is not among its arguments: the call is left in flight. In the store it
  returns, the job is present with status processing, no result, no error and no
  completion time, and \<open>check_job_status\<close> on that store answers at once with a status
  that is pending or processing.
\<close>

theorem generateImage_returns_first:
  "snd (generateImage st jobId now p aspectRatio model) = jobId
   \<and> jobs (fst (generateImage st jobId now p aspectRatio model)) jobId =
       Some \<lparr>job_id = jobId, status = processing, prompt = p, result = None, error = None,
             job_createdAt = now, job_completedAt = None\<rparr>
   \<and> inflight (fst (generateImage st jobId now p aspectRatio model)) jobId =
       Some \<lparr>req_model = model, req_contents = p, req_aspectRatio = aspectRatio\<rparr>
   \<and> (\<exists>rsp. check_job_status (fst (generateImage st jobId now p aspectRatio model)) jobId
               = Inr rsp
          \<and> rsp_status rsp \<in> {pending, processing}
          \<and> rsp_completedAt rsp = None \<and> rsp_error rsp = None \<and> rsp_hasResult rsp = None)"
  by (simp add: generateImage_def createJob_def dispatch_def check_job_status_def)


section \<open>Submitting a batch\<close>

lemma generateImage_jobs:
  "jobs (fst (generateImage st jobId now p aspectRatio model)) =
     (jobs st)(jobId \<mapsto> \<lparr>job_id = jobId, status = processing, prompt = p, result = None,
                          error = None, job_createdAt = now, job_completedAt = None\<rparr>)"
  by (simp add: generateImage_def createJob_def dispatch_def)

lemma generateImage_batchJobs:
  "batchJobs (fst (generateImage st jobId now p aspectRatio model)) = batchJobs st"
  by (simp add: generateImage_def createJob_def dispatch_def)

lemma generateImage_id: "snd (generateImage st jobId now p aspectRatio model) = jobId"
  by (simp add: generateImage_def)

lemma generateBatch_loop_ids:
  "snd (generateBatch_loop st ps dar dm gen k ids)
     = ids @ map (\<lambda>i. fst (gen i)) [k..<k + length ps]"
proof (induction ps arbitrary: st k ids)
  case Nil
  show ?case by simp
next
  case (Cons a ps)
  show ?case
    by (simp add: Let_def split_beta Cons.IH generateImage_id upt_conv_Cons del: upt_Suc)
qed

lemma generateImage_dom:
  "dom (jobs (fst (generateImage st jobId now p aspectRatio model))) = insert jobId (dom (jobs st))"
  by (simp add: generateImage_jobs)

lemma generateBatch_loop_dom:
  "dom (jobs (fst (generateBatch_loop st ps dar dm gen k ids)))
     = dom (jobs st) \<union> (\<lambda>i. fst (gen i)) ` {k..<k + length ps}"
proof (induction ps arbitrary: st k ids)
  case Nil
  show ?case by simp
next
  case (Cons a ps)
  have "{k..<k + length (a # ps)} = insert k {Suc k..<Suc k + length ps}"
    by auto
  then show ?case
    by (simp add: Let_def split_beta Cons.IH generateImage_dom)
qed

lemma generateBatch_loop_batchJobs:
  "batchJobs (fst (generateBatch_loop st ps dar dm gen k ids)) = batchJobs st"
  by (induction ps arbitrary: st k ids)
     (simp_all add: Let_def split_beta generateImage_batchJobs)

text \<open>
  Claim C6. The \<^verbatim>\<open>generate_batch_images\<close> handler rejects a prompt list that is empty or
  has more than 20 items with the invalid-arguments error of the schema, and returns the
  stores as they were: no job and no batch has been created. A list of 1 to 20 items is
  accepted: the handler answers with one job id per prompt, in order, all of them now in
  the job store, and the batch is recorded over exactly these ids.
\<close>

theorem generate_batch_images_bounds:
  "(length (arg_prompts args) = 0 \<or> 20 < length (arg_prompts args) \<longrightarrow>
      (\<exists>issues. handle_generate_batch_images st args gen batchId now
                  = (Inl (InvalidArguments issues), st)))
   \<and> (1 \<le> length (arg_prompts args) \<and> length (arg_prompts args) \<le> 20 \<longrightarrow>
      (\<exists>rsp st'. handle_generate_batch_images st args gen batchId now = (Inr rsp, st')
         \<and> gb_batchId rsp = batchId
         \<and> gb_totalImages rsp = length (arg_prompts args)
         \<and> gb_jobIds rsp = map (\<lambda>i. fst (gen i)) [0..<length (arg_prompts args)]
         \<and> set (gb_jobIds rsp) \<subseteq> dom (jobs st')
         \<and> batchJobs st' batchId =
             Some \<lparr>batch_id = batchId, jobIds = gb_jobIds rsp,
                   totalCount = length (arg_prompts args), batch_createdAt = now,
                   batch_completedAt = None\<rparr>))"
proof (intro conjI impI)
  assume "length (arg_prompts args) = 0 \<or> 20 < length (arg_prompts args)"
  then show "\<exists>issues. handle_generate_batch_images st args gen batchId now
                  = (Inl (InvalidArguments issues), st)"
    by (auto simp: handle_generate_batch_images_def GenerateBatchImagesSchema_parse_def)
next
  assume len: "1 \<le> length (arg_prompts args) \<and> length (arg_prompts args) \<le> 20"
  let ?dar = "case arg_defaultAspectRatio args of Some a \<Rightarrow> a | None \<Rightarrow> ar_1_1"
  let ?dm = "case arg_defaultModel args of Some m \<Rightarrow> m | None \<Rightarrow> gemini_3_pro_image_preview"
  let ?loop = "generateBatch_loop st (arg_prompts args) ?dar ?dm gen 0 []"
  let ?ids = "map (\<lambda>i. fst (gen i)) [0..<length (arg_prompts args)]"
  have parse: "GenerateBatchImagesSchema_parse args = Inr (arg_prompts args, ?dar, ?dm)"
    using len by (cases "arg_prompts args") (simp_all add: GenerateBatchImagesSchema_parse_def)
  have ids: "snd ?loop = ?ids"
    by (simp add: generateBatch_loop_ids)
  have dom: "set ?ids \<subseteq> dom (jobs (fst ?loop))"
    by (simp add: generateBatch_loop_dom)
  let ?st' = "createBatch (fst ?loop) batchId ?ids (length (arg_prompts args)) now"
  have h: "handle_generate_batch_images st args gen batchId now =
        (Inr \<lparr>gb_batchId = batchId, gb_jobIds = ?ids,
              gb_totalImages = length (arg_prompts args), gb_status = ''pending'',
              gb_message = ''Batch image generation started. Use check_batch_status to monitor progress.''\<rparr>,
         ?st')"
    using ids
    by (simp add: handle_generate_batch_images_def parse generateBatchImages_def split_beta
        del: generateBatch_loop.simps)
  have "set ?ids \<subseteq> dom (jobs ?st')"
    using dom by (simp add: createBatch_def)
  moreover have "batchJobs ?st' batchId =
             Some \<lparr>batch_id = batchId, jobIds = ?ids,
                   totalCount = length (arg_prompts args), batch_createdAt = now,
                   batch_completedAt = None\<rparr>"
    by (simp add: createBatch_def)
  ultimately show "\<exists>rsp st'. handle_generate_batch_images st args gen batchId now = (Inr rsp, st')
         \<and> gb_batchId rsp = batchId
         \<and> gb_totalImages rsp = length (arg_prompts args)
         \<and> gb_jobIds rsp = map (\<lambda>i. fst (gen i)) [0..<length (arg_prompts args)]
         \<and> set (gb_jobIds rsp) \<subseteq> dom (jobs st')
         \<and> batchJobs st' batchId =
             Some \<lparr>batch_id = batchId, jobIds = gb_jobIds rsp,
                   totalCount = length (arg_prompts args), batch_createdAt = now,
                   batch_completedAt = None\<rparr>"
    unfolding h by simp
qed


lemma nat_to_string_digits:
  "nat_to_string 1 = ''1''" "nat_to_string 2 = ''2''" "nat_to_string 3 = ''3''"
  "nat_to_string 12 = ''12''"
  by (simp_all add: nat_to_string.simps digit_char_def)

lemma demo_gen_ids:
  "map (\<lambda>i. fst (demo_gen i)) [0..<3] = [''job_1'', ''job_2'', ''job_3'']"
  by (simp add: demo_gen_def upt_rec nat_to_string.simps digit_char_def)

theorem generate_batch_images_bounds_witness:
  "handle_generate_batch_images init
      \<lparr>arg_prompts = [], arg_defaultAspectRatio = None, arg_defaultModel = None\<rparr>
      demo_gen ''batch_1'' 103
     = (Inl (InvalidArguments [too_small]), init)
   \<and> handle_generate_batch_images init
      \<lparr>arg_prompts = replicate 21 \<lparr>bp_prompt = ''a cat'', bp_aspectRatio = None, bp_model = None\<rparr>,
       arg_defaultAspectRatio = None, arg_defaultModel = None\<rparr>
      demo_gen ''batch_1'' 103
     = (Inl (InvalidArguments [too_big]), init)
   \<and> (\<exists>rsp st'. handle_generate_batch_images init
          \<lparr>arg_prompts = demo_prompts, arg_defaultAspectRatio = None, arg_defaultModel = None\<rparr>
          demo_gen ''batch_1'' 103 = (Inr rsp, st')
        \<and> gb_totalImages rsp = 3
        \<and> gb_jobIds rsp = [''job_1'', ''job_2'', ''job_3'']
        \<and> set (gb_jobIds rsp) \<subseteq> dom (jobs st')
        \<and> batchJobs st' ''batch_1'' =
             Some \<lparr>batch_id = ''batch_1'', jobIds = [''job_1'', ''job_2'', ''job_3''],
                   totalCount = 3, batch_createdAt = 103, batch_completedAt = None\<rparr>)"
proof -
  let ?a0 = "\<lparr>arg_prompts = [], arg_defaultAspectRatio = None, arg_defaultModel = None\<rparr>"
  let ?a21 = "\<lparr>arg_prompts = replicate 21
                  \<lparr>bp_prompt = ''a cat'', bp_aspectRatio = None, bp_model = None\<rparr>,
               arg_defaultAspectRatio = None, arg_defaultModel = None\<rparr>"
  let ?a3 = "\<lparr>arg_prompts = demo_prompts, arg_defaultAspectRatio = None,
              arg_defaultModel = None\<rparr>"
  have l: "length demo_prompts = 3" by (simp add: demo_prompts_def)
  have 1: "handle_generate_batch_images init ?a0 demo_gen ''batch_1'' 103
             = (Inl (InvalidArguments [too_small]), init)"
    using generate_batch_images_bounds [of ?a0 init demo_gen "''batch_1''" 103]
    by (simp add: handle_generate_batch_images_def GenerateBatchImagesSchema_parse_def)
  have 2: "handle_generate_batch_images init ?a21 demo_gen ''batch_1'' 103
             = (Inl (InvalidArguments [too_big]), init)"
    using generate_batch_images_bounds [of ?a21 init demo_gen "''batch_1''" 103]
    by (simp add: handle_generate_batch_images_def GenerateBatchImagesSchema_parse_def)
  have 3: "\<exists>rsp st'. handle_generate_batch_images init ?a3 demo_gen ''batch_1'' 103 = (Inr rsp, st')
        \<and> gb_totalImages rsp = 3
        \<and> gb_jobIds rsp = [''job_1'', ''job_2'', ''job_3'']
        \<and> set (gb_jobIds rsp) \<subseteq> dom (jobs st')
        \<and> batchJobs st' ''batch_1'' =
             Some \<lparr>batch_id = ''batch_1'', jobIds = [''job_1'', ''job_2'', ''job_3''],
                   totalCount = 3, batch_createdAt = 103, batch_completedAt = None\<rparr>"
    using generate_batch_images_bounds [of ?a3 init demo_gen "''batch_1''" 103]
    by (auto simp: l demo_gen_ids)
  from 1 2 3 show ?thesis by blast
qed

section \<open>Members missing from the job store\<close>

lemma tally_loop_details:
  "jobDetails (tally_loop st ids t)
     = jobDetails t @ map (\<lambda>i. job_summary (the (jobs st i))) (present st ids)"
  by (induction ids arbitrary: t)
     (auto simp: present_def tally_job_def Let_def split: option.splits job_status.splits)

lemma count_status_sum:
  "count_status st ids completed + count_status st ids failed
     + count_status st ids pending + count_status st ids processing
   = length (present st ids)"
proof (induction ids)
  case Nil
  show ?case by (simp add: count_status_def present_def)
next
  case (Cons a ids)
  show ?case
  proof (cases "jobs st a")
    case None
    with Cons show ?thesis by (simp add: count_status_def present_def)
  next
    case (Some job)
    with Cons show ?thesis
      by (cases "status job") (simp_all add: count_status_def present_def)
  qed
qed

lemma present_less:
  "i \<in> set ids \<Longrightarrow> jobs st i = None \<Longrightarrow> length (present st ids) < length ids"
  unfolding present_def by (rule length_filter_less) auto

theorem getBatchStatus_absent_counterexample:
  "batchJobs ghost_store ''batch_1'' =
     Some \<lparr>batch_id = ''batch_1'', jobIds = [''job_1'', ''job_9''], totalCount = 2,
           batch_createdAt = 103, batch_completedAt = None\<rparr>
   \<and> jobs ghost_store ''job_9'' = None
   \<and> getBatchStatus ghost_store ''batch_1'' 120 =
       Inr (\<lparr>r_batchId = ''batch_1'', r_status = batch_pending, r_totalCount = 2,
             r_completedCount = 0, r_failedCount = 1, r_pendingCount = 0,
             r_processingCount = 0,
             r_jobs = [\<lparr>jd_jobId = ''job_1'', jd_status = failed, jd_prompt = ''a cat''\<rparr>],
             r_createdAt = 103, r_completedAt = None\<rparr>,
            ghost_store)"
  by (simp add: ghost_store_def getBatchStatus_def tally_job_def job_summary_def Let_def)

text \<open>
  Claim C7, as amended. For a known batch, also one whose \<^verbatim>\<open>jobIds\<close> contain an id that
  is not in the job store, \<open>getBatchStatus\<close> raises no error. It skips the absent ids:
  the four tallies add up to the number of members present in the store and the member
  summaries are those of the present members, in order. With an absent member the
  tallies add up to less than the number of members, so when \<^verbatim>\<open>totalCount\<close> is that number
  the batch is never reported as all done: its status is pending or processing.
\<close>

theorem getBatchStatus_skips_absent:
  assumes "batchJobs st batchId = Some batch"
  shows "\<exists>r st'. getBatchStatus st batchId now = Inr (r, st')
      \<and> r_completedCount r + r_failedCount r + r_pendingCount r + r_processingCount r
          = length (present st (jobIds batch))
      \<and> r_jobs r = map (\<lambda>i. job_summary (the (jobs st i))) (present st (jobIds batch))
      \<and> ((\<exists>i \<in> set (jobIds batch). jobs st i = None) \<longrightarrow>
            length (present st (jobIds batch)) < length (jobIds batch)
            \<and> (totalCount batch = length (jobIds batch) \<longrightarrow>
                 r_status r = batch_pending \<or> r_status r = batch_processing))"
proof -
  let ?c = "count_status st (jobIds batch) completed"
  let ?f = "count_status st (jobIds batch) failed"
  let ?p = "count_status st (jobIds batch) processing"
  have sum: "?c + ?f + count_status st (jobIds batch) pending + ?p
               = length (present st (jobIds batch))"
    by (rule count_status_sum)
  have absent: "(\<exists>i \<in> set (jobIds batch). jobs st i = None) \<longrightarrow>
            length (present st (jobIds batch)) < length (jobIds batch)
            \<and> (totalCount batch = length (jobIds batch) \<longrightarrow>
                 spec_aggregate ?c ?f ?p (totalCount batch) = batch_pending
                 \<or> spec_aggregate ?c ?f ?p (totalCount batch) = batch_processing)"
  proof (intro impI conjI)
    assume a: "\<exists>i \<in> set (jobIds batch). jobs st i = None"
    then show less: "length (present st (jobIds batch)) < length (jobIds batch)"
      using present_less by blast
    assume "totalCount batch = length (jobIds batch)"
    with less sum have "?c + ?f \<noteq> totalCount batch" by linarith
    then show "spec_aggregate ?c ?f ?p (totalCount batch) = batch_pending
                 \<or> spec_aggregate ?c ?f ?p (totalCount batch) = batch_processing"
      by (simp add: spec_aggregate_def)
  qed
  show ?thesis
    unfolding getBatchStatus_Some [OF assms]
    using sum absent by (simp add: tally_loop_details)
qed

theorem getBatchStatus_skips_absent_witness:
  "batchJobs ghost_store ''batch_1'' =
     Some \<lparr>batch_id = ''batch_1'', jobIds = [''job_1'', ''job_9''], totalCount = 2,
           batch_createdAt = 103, batch_completedAt = None\<rparr>
   \<and> present ghost_store [''job_1'', ''job_9''] = [''job_1'']
   \<and> (\<exists>r st'. getBatchStatus ghost_store ''batch_1'' 120 = Inr (r, st')
         \<and> r_completedCount r + r_failedCount r + r_pendingCount r + r_processingCount r = 1
         \<and> map jd_jobId (r_jobs r) = [''job_1'']
         \<and> (r_status r = batch_pending \<or> r_status r = batch_processing))"
proof -
  have b: "batchJobs ghost_store ''batch_1'' =
     Some \<lparr>batch_id = ''batch_1'', jobIds = [''job_1'', ''job_9''], totalCount = 2,
           batch_createdAt = 103, batch_completedAt = None\<rparr>"
    by (simp add: ghost_store_def)
  have p: "present ghost_store [''job_1'', ''job_9''] = [''job_1'']"
    by (simp add: present_def ghost_store_def)
  have j: "jobs ghost_store ''job_9'' = None" "job_id (the (jobs ghost_store ''job_1'')) = ''job_1''"
    by (simp_all add: ghost_store_def)
  show ?thesis
    using getBatchStatus_skips_absent [OF b, of 120] b p j
    by (auto simp: job_summary_def)
qed

section \<open>The completion time of a batch\<close>

lemma all_terminal_counts:
  "all_terminal st ids
     = (count_status st ids completed + count_status st ids failed = length ids)"
proof
  assume "all_terminal st ids"
  then show "count_status st ids completed + count_status st ids failed = length ids"
    by (induction ids)
       (auto simp: all_terminal_def count_status_def terminal_def split: option.splits)
next
  assume "count_status st ids completed + count_status st ids failed = length ids"
  then have "\<forall>i \<in> set ids. \<exists>job. jobs st i = Some job \<and> terminal (status job)"
    using allDone_terminal by blast
  then show "all_terminal st ids"
    by (auto simp: all_terminal_def list_all_iff)
qed

lemma count_status_cong:
  "jobs st' = jobs st \<Longrightarrow> count_status st' ids s = count_status st ids s"
  by (simp add: count_status_def)

lemma tally_loop_cong:
  "jobs st' = jobs st \<Longrightarrow> tally_loop st' ids t = tally_loop st ids t"
  by (induction ids arbitrary: t) (simp_all split: option.splits)

lemma stamp_idem:
  assumes "jobs st' = jobs st"
  shows "stamp st' (stamp st batch now) now2 = stamp st batch now"
  by (simp add: stamp_def count_status_cong [OF assms])

lemma getBatchStatus_stamp:
  assumes "batchJobs st batchId = Some batch"
  shows "getBatchStatus st batchId now =
     Inr (\<lparr>r_batchId = batch_id batch,
           r_status = spec_aggregate (count_status st (jobIds batch) completed)
                        (count_status st (jobIds batch) failed)
                        (count_status st (jobIds batch) processing) (totalCount batch),
           r_totalCount = totalCount batch,
           r_completedCount = count_status st (jobIds batch) completed,
           r_failedCount = count_status st (jobIds batch) failed,
           r_pendingCount = count_status st (jobIds batch) pending,
           r_processingCount = count_status st (jobIds batch) processing,
           r_jobs = jobDetails (tally_loop st (jobIds batch)
                     \<lparr>completedCount = 0, failedCount = 0, pendingCount = 0,
                      processingCount = 0, jobDetails = []\<rparr>),
           r_createdAt = batch_createdAt batch,
           r_completedAt = batch_completedAt (stamp st batch now)\<rparr>,
          st\<lparr>batchJobs := (batchJobs st)(batchId \<mapsto> stamp st batch now)\<rparr>)"
  unfolding getBatchStatus_Some [OF assms] by (simp add: stamp_def)

lemma getBatchStatus_twice:
  assumes "getBatchStatus st batchId now = Inr (r, st')"
  shows "getBatchStatus st' batchId now2 = Inr (r, st')"
proof -
  from assms obtain batch where batch: "batchJobs st batchId = Some batch"
    and st': "st' = st\<lparr>batchJobs := (batchJobs st)(batchId \<mapsto> stamp st batch now)\<rparr>"
    by (rule getBatchStatus_Inr)
  have j: "jobs st' = jobs st" by (simp add: st')
  have b': "batchJobs st' batchId = Some (stamp st batch now)" by (simp add: st')
  have same: "st'\<lparr>batchJobs := (batchJobs st')(batchId \<mapsto> stamp st batch now)\<rparr> = st'"
    by (simp add: st')
  have "getBatchStatus st' batchId now2 = getBatchStatus st batchId now"
    unfolding getBatchStatus_stamp [OF b'] getBatchStatus_stamp [OF batch]
      stamp_idem [OF j] stamp_fields count_status_cong [OF j] tally_loop_cong [OF j] same
    by (simp add: st')
  with assms show ?thesis by simp
qed

lemma step_batch_kept:
  assumes "step st st'" and "batchJobs st batchId = Some batch"
  shows "\<exists>batch'. batchJobs st' batchId = Some batch'
           \<and> batch' = batch\<lparr>batch_completedAt := batch_completedAt batch'\<rparr>
           \<and> (batch_completedAt batch \<noteq> None \<longrightarrow> batch' = batch)"
  using assms
proof (induction rule: step.induct)
  case (step_create jobId st now p)
  then show ?case by (simp add: createJob_def)
next
  case (step_dispatch st jobId job req)
  then show ?case by (simp add: dispatch_def)
next
  case (step_settle jobId st outcome now)
  then show ?case by (simp add: settle_def split: option.splits)
next
  case (step_batch b st ids now)
  then show ?case by (auto simp: createBatch_def)
next
  case (step_aggregate st b now r st')
  from step_aggregate.hyps obtain batch0 where "batchJobs st b = Some batch0"
    and "st' = st\<lparr>batchJobs := (batchJobs st)(b \<mapsto> stamp st batch0 now)\<rparr>"
    by (rule getBatchStatus_Inr)
  with step_aggregate.prems show ?case
    by (auto simp: stamp_def)
qed

lemma steps_batch_kept:
  assumes "step\<^sup>*\<^sup>* st st'" and "batchJobs st batchId = Some batch"
  shows "\<exists>batch'. batchJobs st' batchId = Some batch'
           \<and> batch' = batch\<lparr>batch_completedAt := batch_completedAt batch'\<rparr>
           \<and> (batch_completedAt batch \<noteq> None \<longrightarrow> batch' = batch)"
  using assms
proof (induction rule: rtranclp_induct)
  case base
  then show ?case by simp
next
  case (step y z)
  then obtain b1 where b1: "batchJobs y batchId = Some b1"
    "b1 = batch\<lparr>batch_completedAt := batch_completedAt b1\<rparr>"
    "batch_completedAt batch \<noteq> None \<longrightarrow> b1 = batch" by blast
  from step_batch_kept [OF step.hyps(2) b1(1)] obtain b2 where b2: "batchJobs z batchId = Some b2"
    "b2 = b1\<lparr>batch_completedAt := batch_completedAt b2\<rparr>"
    "batch_completedAt b1 \<noteq> None \<longrightarrow> b2 = b1" by blast
  have "b2 = batch\<lparr>batch_completedAt := batch_completedAt b2\<rparr>"
  proof -
    have "b2 = (batch\<lparr>batch_completedAt := batch_completedAt b1\<rparr>)\<lparr>batch_completedAt := batch_completedAt b2\<rparr>"
      using b1(2) b2(2) by simp
    then show ?thesis by simp
  qed
  moreover have "batch_completedAt batch \<noteq> None \<longrightarrow> b2 = batch"
    using b1(3) b2(3) by auto
  ultimately show ?case using b2(1) by blast
qed


text \<open>
  Claim C8. Take a batch in a reachable state and a call of \<open>getBatchStatus\<close> on it.
  The call leaves the job store alone and changes nothing of the batch record except,
  possibly, \<^verbatim>\<open>completedAt\<close>: a time already set is kept, and an unset one is set to the
  time of the call exactly if all members are in a terminal state. A second call right
  after returns the same result and the same stores, whatever its time. Over any further
  steps of the server the batch keeps its id, members, count and creation time, and once
  \<^verbatim>\<open>completedAt\<close> is set the whole record never changes. A set \<^verbatim>\<open>completedAt\<close> also
  means that all members are in a terminal state.
\<close>

theorem batch_completedAt_once:
  assumes "reachable st" and "batchJobs st batchId = Some batch"
  shows "(\<exists>r st'. getBatchStatus st batchId now = Inr (r, st')
           \<and> jobs st' = jobs st
           \<and> batchJobs st' batchId =
               Some (batch\<lparr>batch_completedAt :=
                       (case batch_completedAt batch of
                          Some t \<Rightarrow> Some t
                        | None \<Rightarrow> if all_terminal st (jobIds batch) then Some now else None)\<rparr>)
           \<and> r_completedAt r =
               (case batch_completedAt batch of
                  Some t \<Rightarrow> Some t
                | None \<Rightarrow> if all_terminal st (jobIds batch) then Some now else None)
           \<and> (\<forall>now2. getBatchStatus st' batchId now2 = Inr (r, st')))
       \<and> (batch_completedAt batch \<noteq> None \<longrightarrow> all_terminal st (jobIds batch))
       \<and> (\<forall>st''. step\<^sup>*\<^sup>* st st'' \<longrightarrow>
             (\<exists>batch''. batchJobs st'' batchId = Some batch''
                \<and> batch'' = batch\<lparr>batch_completedAt := batch_completedAt batch''\<rparr>
                \<and> (batch_completedAt batch \<noteq> None \<longrightarrow> batch'' = batch)))"
proof -
  have inv: "store_inv st" using assms(1) by (rule reachable_inv)
  have total: "totalCount batch = length (jobIds batch)"
    using store_inv_batch [OF inv assms(2)] by simp
  let ?ca = "case batch_completedAt batch of
               Some t \<Rightarrow> Some t
             | None \<Rightarrow> if all_terminal st (jobIds batch) then Some now else None"
  have stamp: "stamp st batch now = batch\<lparr>batch_completedAt := ?ca\<rparr>"
    by (simp add: stamp_def all_terminal_counts total split: option.splits)
  let ?r = "fst (projr (getBatchStatus st batchId now))"
  let ?st' = "snd (projr (getBatchStatus st batchId now))"
  have g: "getBatchStatus st batchId now = Inr (?r, ?st')"
    by (simp add: getBatchStatus_stamp [OF assms(2)])
  have 1: "jobs ?st' = jobs st"
    by (simp add: getBatchStatus_stamp [OF assms(2)])
  have 2: "batchJobs ?st' batchId = Some (batch\<lparr>batch_completedAt := ?ca\<rparr>)"
    by (simp add: getBatchStatus_stamp [OF assms(2)] stamp)
  have 3: "r_completedAt ?r = ?ca"
    by (simp add: getBatchStatus_stamp [OF assms(2)] stamp)
  have 4: "\<forall>now2. getBatchStatus ?st' batchId now2 = Inr (?r, ?st')"
    using getBatchStatus_twice [OF g] by blast
  have 5: "batch_completedAt batch \<noteq> None \<longrightarrow> all_terminal st (jobIds batch)"
    using store_inv_stamped [OF inv assms(2)]
    by (fastforce simp: all_terminal_def list_all_iff)
  have 6: "\<forall>st''. step\<^sup>*\<^sup>* st st'' \<longrightarrow>
             (\<exists>batch''. batchJobs st'' batchId = Some batch''
                \<and> batch'' = batch\<lparr>batch_completedAt := batch_completedAt batch''\<rparr>
                \<and> (batch_completedAt batch \<noteq> None \<longrightarrow> batch'' = batch))"
    using steps_batch_kept [OF _ assms(2)] by blast
  from g 1 2 3 4 have "\<exists>r st'. getBatchStatus st batchId now = Inr (r, st')
           \<and> jobs st' = jobs st
           \<and> batchJobs st' batchId = Some (batch\<lparr>batch_completedAt := ?ca\<rparr>)
           \<and> r_completedAt r = ?ca
           \<and> (\<forall>now2. getBatchStatus st' batchId now2 = Inr (r, st'))"
    by blast
  with 5 6 show ?thesis by blast
qed


theorem batch_completedAt_once_witness:
  "reachable demo6
   \<and> batchJobs demo6 ''batch_1'' =
       Some \<lparr>batch_id = ''batch_1'', jobIds = [''job_1'', ''job_2'', ''job_3''], totalCount = 3,
             batch_createdAt = 103, batch_completedAt = None\<rparr>
   \<and> (\<exists>r. getBatchStatus demo6 ''batch_1'' 120 = Inr (r, demo7)
          \<and> r_completedAt r = Some 120
          \<and> getBatchStatus demo7 ''batch_1'' 130 = Inr (r, demo7))
   \<and> reachable demo7
   \<and> step\<^sup>*\<^sup>* demo7 demo7
   \<and> batchJobs demo7 ''batch_1'' =
       Some \<lparr>batch_id = ''batch_1'', jobIds = [''job_1'', ''job_2'', ''job_3''], totalCount = 3,
             batch_createdAt = 103, batch_completedAt = Some 120\<rparr>
   \<and> all_terminal demo7 [''job_1'', ''job_2'', ''job_3'']"
proof -
  let ?b6 = "\<lparr>batch_id = ''batch_1'', jobIds = [''job_1'', ''job_2'', ''job_3''], totalCount = 3,
             batch_createdAt = 103, batch_completedAt = None\<rparr>"
  let ?b7 = "\<lparr>batch_id = ''batch_1'', jobIds = [''job_1'', ''job_2'', ''job_3''], totalCount = 3,
             batch_createdAt = 103, batch_completedAt = Some 120\<rparr>"
  have t6: "all_terminal demo6 [''job_1'', ''job_2'', ''job_3'']"
    by (simp add: all_terminal_def demo6_jobs terminal_def)
  from batch_completedAt_once [OF demo_reachable(7) demo6_batch, of 120] t6
  obtain r st' where g: "getBatchStatus demo6 ''batch_1'' 120 = Inr (r, st')"
    and b: "batchJobs st' ''batch_1'' = Some ?b7"
    and ca: "r_completedAt r = Some 120"
    and again: "\<forall>now2. getBatchStatus st' ''batch_1'' now2 = Inr (r, st')"
    by auto
  have d7: "demo7 = st'" by (simp add: demo7_def g)
  have "step demo6 demo7" using g unfolding d7 by (rule step_aggregate)
  then have r7: "reachable demo7"
    using demo_reachable(7) reachable_steps by blast
  have b7: "batchJobs demo7 ''batch_1'' = Some ?b7" using b by (simp add: d7)
  have t7: "all_terminal demo7 [''job_1'', ''job_2'', ''job_3'']"
    using batch_completedAt_once [OF r7 b7, of 130] by simp
  show ?thesis
    using demo_reachable(7) demo6_batch g ca again r7 b7 t7 unfolding d7 by auto
qed

section \<open>Saving a batch\<close>

lemma saveImageToFile_None:
  "jobs st jobId = None \<Longrightarrow>
     saveImageToFile env st jobId filePath fs = (Inl (JobNotFound jobId), fs)"
  by (simp add: saveImageToFile_def)

lemma saveImageToFile_not_completed:
  "jobs st jobId = Some job \<Longrightarrow> status job \<noteq> completed \<Longrightarrow>
     saveImageToFile env st jobId filePath fs = (Inl (JobNotCompleted jobId (status job)), fs)"
  by (simp add: saveImageToFile_def)

lemma saveImageToFile_Inr:
  assumes "fst (saveImageToFile env st jobId filePath fs) = Inr u"
  shows "\<exists>job d. jobs st jobId = Some job \<and> status job = completed \<and> result job = Some d
           \<and> endsWith (path_resolve env filePath) ''.png''
           \<and> fs_mkdir env (path_dirname env (path_resolve env filePath)) fs
               = (None, snd (fs_mkdir env (path_dirname env (path_resolve env filePath)) fs))
           \<and> saveImageToFile env st jobId filePath fs
               = (Inr (), snd (fs_writeFile env (path_resolve env filePath) (base64_decode env d)
                    (snd (fs_mkdir env (path_dirname env (path_resolve env filePath)) fs))))"
proof (cases "jobs st jobId")
  case None
  with assms show ?thesis by (simp add: saveImageToFile_def)
next
  case (Some job)
  show ?thesis
  proof (cases "status job = completed")
    case False
    with Some assms show ?thesis by (simp add: saveImageToFile_def)
  next
    case True
    show ?thesis
    proof (cases "result job")
      case None
      with Some True assms show ?thesis by (simp add: saveImageToFile_def)
    next
      case (Some d)
      with \<open>jobs st jobId = Some job\<close> True assms show ?thesis
        by (auto simp: saveImageToFile_def Let_def split: if_splits prod.splits option.splits)
    qed
  qed
qed

lemma saveBatch_loop_eq:
  assumes "n = length ids - i" and "i \<le> length ids"
  shows "saveBatch_loop env storeAt d pre ids i saved0 failed0 (fs_before env storeAt d pre ids fs i)
     = ((saved0 @ map (\<lambda>k. (ids ! k, batch_filePath env d pre k))
                      (filter (member_saved env storeAt d pre ids fs) [i..<length ids]),
         failed0 @ map (\<lambda>k. (ids ! k, member_error env storeAt d pre ids fs k))
                       (filter (\<lambda>k. \<not> member_saved env storeAt d pre ids fs k) [i..<length ids])),
        fs_before env storeAt d pre ids fs (length ids))"
  using assms
proof (induction n arbitrary: i saved0 failed0)
  case 0
  then have "i = length ids" by simp
  then show ?case by (simp add: saveBatch_loop.simps)
next
  case (Suc n)
  then have lt: "i < length ids" and n: "n = length ids - Suc i" and le: "Suc i \<le> length ids"
    by simp_all
  have upt: "[i..<length ids] = i # [Suc i..<length ids]"
    using lt by (simp add: upt_conv_Cons)
  let ?sv = "saveImageToFile env (storeAt i) (ids ! i) (batch_filePath env d pre i)
               (fs_before env storeAt d pre ids fs i)"
  obtain a b where ab: "?sv = (a, b)" by (cases ?sv)
  have a: "a = member_try env storeAt d pre ids fs i"
    and b: "b = fs_before env storeAt d pre ids fs (Suc i)"
    using ab by (simp_all add: member_try_def)
  show ?case
  proof (cases "member_try env storeAt d pre ids fs i")
    case (Inl e)
    have ms: "\<not> member_saved env storeAt d pre ids fs i"
      "member_error env storeAt d pre ids fs i = message e"
      by (simp_all add: member_saved_def member_error_def Inl)
    have "saveBatch_loop env storeAt d pre ids i saved0 failed0 (fs_before env storeAt d pre ids fs i)
          = saveBatch_loop env storeAt d pre ids (Suc i) saved0 (failed0 @ [(ids ! i, message e)])
              (fs_before env storeAt d pre ids fs (Suc i))"
      using lt a b Inl by (subst saveBatch_loop.simps) (simp add: Let_def ab del: fs_before.simps)
    also note Suc.IH [OF n le]
    finally show ?thesis unfolding upt using ms by simp
  next
    case (Inr u)
    have ms: "member_saved env storeAt d pre ids fs i"
      by (simp add: member_saved_def Inr)
    have "saveBatch_loop env storeAt d pre ids i saved0 failed0 (fs_before env storeAt d pre ids fs i)
          = saveBatch_loop env storeAt d pre ids (Suc i)
              (saved0 @ [(ids ! i, batch_filePath env d pre i)]) failed0
              (fs_before env storeAt d pre ids fs (Suc i))"
      using lt a b Inr by (subst saveBatch_loop.simps) (simp add: Let_def ab del: fs_before.simps)
    also note Suc.IH [OF n le]
    finally show ?thesis unfolding upt using ms by simp
  qed
qed

lemma saveBatchImages_eq:
  assumes "batchJobs st batchId = Some batch"
  shows "saveBatchImages env st storeAt batchId directory pre fs =
     (case fs_mkdir env (path_resolve env directory) fs of
        (Some m, fs1) \<Rightarrow> (Inl (IOError m), fs1)
      | (None, fs1) \<Rightarrow>
          (Inr (spec_saved env storeAt (path_resolve env directory) pre (jobIds batch) fs1,
                spec_failed env storeAt (path_resolve env directory) pre (jobIds batch) fs1),
           fs_before env storeAt (path_resolve env directory) pre (jobIds batch) fs1
             (length (jobIds batch))))"
proof -
  have loop: "saveBatch_loop env storeAt d pre (jobIds batch) 0 [] [] fs1
     = ((spec_saved env storeAt d pre (jobIds batch) fs1,
         spec_failed env storeAt d pre (jobIds batch) fs1),
        fs_before env storeAt d pre (jobIds batch) fs1 (length (jobIds batch)))" for d fs1
    using saveBatch_loop_eq [of "length (jobIds batch)" "jobIds batch" 0 env storeAt d pre "[]" "[]" fs1]
    by (simp add: spec_saved_def spec_failed_def)
  show ?thesis
    using assms
    by (simp add: saveBatchImages_def Let_def loop split: prod.splits option.splits)
qed

lemma spec_lengths:
  "length (spec_saved env storeAt d pre ids fs) + length (spec_failed env storeAt d pre ids fs)
     = length ids"
  unfolding spec_saved_def spec_failed_def
  using sum_length_filter_compl [of "member_saved env storeAt d pre ids fs" "[0..<length ids]"]
  by simp

lemma spec_saved_empty:
  "(spec_saved env storeAt d pre ids fs \<noteq> [])
     = (\<exists>k < length ids. member_saved env storeAt d pre ids fs k)"
  by (auto simp: spec_saved_def filter_empty_conv)


lemma member_not_found:
  assumes "jobs (storeAt k) (ids ! k) = None"
  shows "member_try env storeAt d pre ids fs k = Inl (JobNotFound (ids ! k))"
  using assms by (simp add: member_try_def saveImageToFile_None)

lemma member_not_completed:
  assumes "jobs (storeAt k) (ids ! k) = Some job" and "status job \<noteq> completed"
  shows "member_try env storeAt d pre ids fs k = Inl (JobNotCompleted (ids ! k) (status job))"
  using assms by (simp add: member_try_def saveImageToFile_not_completed)

lemma member_in_lists:
  assumes "k < length ids"
  shows "member_saved env storeAt d pre ids fs k \<Longrightarrow>
           (ids ! k, batch_filePath env d pre k) \<in> set (spec_saved env storeAt d pre ids fs)"
    and "\<not> member_saved env storeAt d pre ids fs k \<Longrightarrow>
           (ids ! k, member_error env storeAt d pre ids fs k)
             \<in> set (spec_failed env storeAt d pre ids fs)"
  using assms by (auto simp: spec_saved_def spec_failed_def)

lemma member_saved_iff:
  "member_saved env storeAt d pre ids fs k =
     (\<exists>job r. jobs (storeAt k) (ids ! k) = Some job \<and> status job = completed
        \<and> result job = Some r \<and> r \<noteq> []
        \<and> endsWith (path_resolve env (batch_filePath env d pre k)) ''.png''
        \<and> fst (fs_mkdir env (path_dirname env (path_resolve env (batch_filePath env d pre k)))
                 (fs_before env storeAt d pre ids fs k)) = None
        \<and> fst (fs_writeFile env (path_resolve env (batch_filePath env d pre k))
                 (base64_decode env r)
                 (snd (fs_mkdir env (path_dirname env (path_resolve env (batch_filePath env d pre k)))
                        (fs_before env storeAt d pre ids fs k)))) = None)"
proof (cases "jobs (storeAt k) (ids ! k)")
  case None
  then show ?thesis
    by (simp add: member_saved_def member_not_found)
next
  case (Some job)
  show ?thesis
  proof (cases "status job = completed")
    case False
    with Some show ?thesis
      by (simp add: member_saved_def member_not_completed)
  next
    case True
    with Some show ?thesis
      by (cases "result job")
         (auto simp: member_saved_def member_try_def saveImageToFile_def Let_def
               split: prod.splits option.splits)
  qed
qed

lemma member_saved_write:
  assumes "member_saved env storeAt d pre ids fs k"
  shows "\<exists>job r. jobs (storeAt k) (ids ! k) = Some job \<and> result job = Some r
     \<and> fs_before env storeAt d pre ids fs (Suc k)
         = snd (fs_writeFile env (path_resolve env (batch_filePath env d pre k))
                  (base64_decode env r)
                  (snd (fs_mkdir env (path_dirname env (path_resolve env (batch_filePath env d pre k)))
                         (fs_before env storeAt d pre ids fs k))))"
proof -
  from assms obtain u where "member_try env storeAt d pre ids fs k = Inr u"
    by (auto simp: member_saved_def split: sum.splits)
  then have "fst (saveImageToFile env (storeAt k) (ids ! k) (batch_filePath env d pre k)
                    (fs_before env storeAt d pre ids fs k)) = Inr u"
    by (simp add: member_try_def)
  from saveImageToFile_Inr [OF this] show ?thesis
    by auto
qed

lemma digit_char_value:
  assumes "d < 10"
  shows "of_char (digit_char d) = (48 + d :: nat)" and "digit_char d \<in> set ''0123456789''"
proof -
  from assms have "d = 0 \<or> d = 1 \<or> d = 2 \<or> d = 3 \<or> d = 4 \<or> d = 5 \<or> d = 6 \<or> d = 7
                    \<or> d = 8 \<or> d = 9" by arith
  then show "of_char (digit_char d) = (48 + d :: nat)" and "digit_char d \<in> set ''0123456789''"
    by (auto simp: digit_char_def)
qed

lemma digit_char_zero:
  assumes "d < 10" and "digit_char d = CHR ''0''"
  shows "d = 0"
proof -
  have "of_char (digit_char d) = (48 + d :: nat)" using assms(1) by (rule digit_char_value)
  with assms(2) show ?thesis by simp
qed

lemma decimal_value_snoc:
  "decimal_value (s @ [c]) = 10 * decimal_value s + (of_char c - 48)"
  by (simp add: decimal_value_def)

lemma nat_to_string_decimal: "decimal_value (nat_to_string n) = n"
proof (induction n rule: nat_to_string.induct)
  case (1 n)
  show ?case
  proof (cases "n < 10")
    case True
    then show ?thesis
      by (subst nat_to_string.simps) (simp add: decimal_value_def digit_char_value)
  next
    case False
    then have "decimal_value (nat_to_string (n div 10)) = n div 10" using "1.IH" by simp
    with False show ?thesis
      by (subst nat_to_string.simps) (simp add: decimal_value_snoc digit_char_value)
  qed
qed

lemma nat_to_string_only_digits: "set (nat_to_string n) \<subseteq> set ''0123456789''"
proof (induction n rule: nat_to_string.induct)
  case (1 n)
  show ?case
  proof (cases "n < 10")
    case True
    then show ?thesis
      using digit_char_value(2) [of n] by (subst nat_to_string.simps) simp
  next
    case False
    then have "set (nat_to_string (n div 10)) \<subseteq> set ''0123456789''" using "1.IH" by simp
    with False show ?thesis
      using digit_char_value(2) [of "n mod 10"] by (subst nat_to_string.simps) simp
  qed
qed

lemma nat_to_string_nonempty: "nat_to_string n \<noteq> []"
  by (subst nat_to_string.simps) simp

lemma nat_to_string_no_leading_zero: "0 < n \<Longrightarrow> hd (nat_to_string n) \<noteq> CHR ''0''"
proof (induction n rule: nat_to_string.induct)
  case (1 n)
  show ?case
  proof (cases "n < 10")
    case True
    with "1.prems" show ?thesis
      using digit_char_zero [of n] by (subst nat_to_string.simps) auto
  next
    case False
    then have "hd (nat_to_string (n div 10)) \<noteq> CHR ''0''" using "1.IH" by simp
    with False show ?thesis
      using nat_to_string_nonempty [of "n div 10"] by (subst nat_to_string.simps) simp
  qed
qed


lemma demo_stores:
  "jobs (demo_storeAt 0) ''job_1'' = jobs demo5 ''job_1''"
  "jobs (demo_storeAt (Suc 0)) ''job_2'' = jobs demo6b ''job_2''"
  "jobs (demo_storeAt (Suc (Suc 0))) ''job_3'' = jobs demo6b ''job_3''"
  by (simp_all add: demo_storeAt_def)

lemma demo5_batch:
  "batchJobs demo5 ''batch_1'' =
     Some \<lparr>batch_id = ''batch_1'', jobIds = [''job_1'', ''job_2'', ''job_3''], totalCount = 3,
           batch_createdAt = 103, batch_completedAt = None\<rparr>"
  by (simp add: demo_defs)

lemma demo6b_batch:
  "batchJobs demo6b ''batch_1'' =
     Some \<lparr>batch_id = ''batch_1'', jobIds = [''job_1'', ''job_2'', ''job_3''], totalCount = 3,
           batch_createdAt = 103, batch_completedAt = None\<rparr>"
  by (simp add: demo6b_def demo_defs)

lemma demo6b_jobs:
  "jobs demo6b ''job_1'' =
     Some \<lparr>job_id = ''job_1'', status = failed, prompt = ''a cat'', result = None,
           error = Some ''quota exceeded'', job_createdAt = 100, job_completedAt = Some 111\<rparr>"
  "jobs demo6b ''job_2'' =
     Some \<lparr>job_id = ''job_2'', status = completed, prompt = ''a dog'',
           result = Some ''d29ybGQ='', error = None, job_createdAt = 101,
           job_completedAt = Some 112\<rparr>"
  "jobs demo6b ''job_3'' =
     Some \<lparr>job_id = ''job_3'', status = completed, prompt = ''a fox'',
           result = Some ''aGVsbG8='', error = None, job_createdAt = 102,
           job_completedAt = Some 110\<rparr>"
  by (simp_all add: demo6b_def demo_defs)

text \<open>
  The save is called while the second job is processing; the job completes before its
  turn and is saved.
\<close>

lemma demo_save:
  "saveBatchImages demo_env demo5 demo_storeAt ''batch_1'' ''/out'' ''image'' [] =
     (Inr ([(''job_2'', ''/out/image_2.png''), (''job_3'', ''/out/image_3.png'')],
           [(''job_1'', ''Job job_1 is not completed (status: failed)'')]),
      [(''/out/image_3.png'', ''aGVsbG8=''), (''/out/image_2.png'', ''d29ybGQ='')])"
  by (simp add: saveBatchImages_def demo5_batch saveBatch_loop.simps saveImageToFile_def
        demo_stores demo5_jobs demo6b_jobs demo_env_def batch_filePath_def nat_to_string.simps
        digit_char_def endsWith_def Let_def)

lemma demo_save_rel:
  "saveBatchImages demo_env_rel demo6b (\<lambda>k. demo6b) ''batch_1'' ''out'' ''image'' [] =
     (Inr ([(''job_2'', ''/cwd/out/image_2.png''), (''job_3'', ''/cwd/out/image_3.png'')],
           [(''job_1'', ''Job job_1 is not completed (status: failed)'')]),
      [(''/cwd/out/image_3.png'', ''aGVsbG8=''), (''/cwd/out/image_2.png'', ''d29ybGQ='')])"
  by (simp add: saveBatchImages_def demo6b_batch saveBatch_loop.simps saveImageToFile_def
        demo6b_jobs demo_env_rel_def demo_env_def batch_filePath_def nat_to_string.simps
        digit_char_def endsWith_def Let_def)

theorem saveBatchImages_paths_counterexample:
  "batchJobs demo6b ''batch_1'' =
     Some \<lparr>batch_id = ''batch_1'', jobIds = [''job_1'', ''job_2'', ''job_3''], totalCount = 3,
           batch_createdAt = 103, batch_completedAt = None\<rparr>
   \<and> saveBatchImages demo_env_rel demo6b (\<lambda>k. demo6b) ''batch_1'' ''out'' ''image'' [] =
     (Inr ([(''job_2'', ''/cwd/out/image_2.png''), (''job_3'', ''/cwd/out/image_3.png'')],
           [(''job_1'', ''Job job_1 is not completed (status: failed)'')]),
      [(''/cwd/out/image_3.png'', ''aGVsbG8=''), (''/cwd/out/image_2.png'', ''d29ybGQ='')])
   \<and> ''/cwd/out/image_2.png'' \<noteq> ''out'' @ ''/'' @ ''image'' @ ''_'' @ nat_to_string 2 @ ''.png''
   \<and> ''out'' @ ''/'' @ ''image'' @ ''_'' @ nat_to_string 2 @ ''.png'' = ''out/image_2.png''"
  using demo6b_batch demo_save_rel
  by (simp add: nat_to_string.simps digit_char_def)


text \<open>
  Claim C5, as amended. Take a known batch and let the creation of the target directory
  succeed. \<open>saveBatchImages\<close> tries the members of \<^verbatim>\<open>jobIds\<close> in the stored order. The
  path of the member at index \<open>k\<close> (position \<open>k + 1\<close>) is the join of the resolved
  directory and the file name made of the prefix, an underscore, the number \<open>k + 1\<close> in
  decimal (digits only, no leading zero) and \<^verbatim>\<open>.png\<close>: it is a function of the directory,
  the prefix and the position only, so the order of completion plays no part. The saved
  list holds exactly the members whose save succeeded, in order, each with this path;
  the failed list holds the other members, in order. A member is saved exactly if, when
  it is tried, its job is completed with a result, the resolved path ends in \<^verbatim>\<open>.png\<close>, and
  creating the parent directory and writing the file succeed; the file is then written
  at the resolved path. The path is the directory, a slash and the file name only where
  resolving leaves the directory as it is and joining it with these file names puts a
  slash between; for a relative directory it is not.
\<close>

theorem saveBatchImages_paths:
  assumes "batchJobs st batchId = Some batch"
    and "fs_mkdir env (path_resolve env directory) fs = (None, fs1)"
  shows "saveBatchImages env st storeAt batchId directory filenamePrefix fs =
      (Inr (map (\<lambda>k. (jobIds batch ! k,
                        path_join env (path_resolve env directory)
                          (filenamePrefix @ ''_'' @ nat_to_string (k + 1) @ ''.png'')))
                (filter (member_saved env storeAt (path_resolve env directory) filenamePrefix
                           (jobIds batch) fs1)
                        [0..<length (jobIds batch)]),
            spec_failed env storeAt (path_resolve env directory) filenamePrefix (jobIds batch) fs1),
       fs_before env storeAt (path_resolve env directory) filenamePrefix (jobIds batch) fs1
         (length (jobIds batch)))
    \<and> map fst (spec_failed env storeAt (path_resolve env directory) filenamePrefix
                  (jobIds batch) fs1)
        = map (\<lambda>k. jobIds batch ! k)
              (filter (\<lambda>k. \<not> member_saved env storeAt (path_resolve env directory) filenamePrefix
                               (jobIds batch) fs1 k)
                      [0..<length (jobIds batch)])
    \<and> (\<forall>k. member_saved env storeAt (path_resolve env directory) filenamePrefix
               (jobIds batch) fs1 k
           = (\<exists>job r. jobs (storeAt k) (jobIds batch ! k) = Some job \<and> status job = completed
                \<and> result job = Some r \<and> r \<noteq> []
                \<and> endsWith (path_resolve env
                     (path_join env (path_resolve env directory)
                        (filenamePrefix @ ''_'' @ nat_to_string (k + 1) @ ''.png''))) ''.png''
                \<and> fst (fs_mkdir env (path_dirname env (path_resolve env
                          (path_join env (path_resolve env directory)
                             (filenamePrefix @ ''_'' @ nat_to_string (k + 1) @ ''.png''))))
                        (fs_before env storeAt (path_resolve env directory) filenamePrefix
                           (jobIds batch) fs1 k)) = None
                \<and> fst (fs_writeFile env (path_resolve env
                          (path_join env (path_resolve env directory)
                             (filenamePrefix @ ''_'' @ nat_to_string (k + 1) @ ''.png'')))
                        (base64_decode env r)
                        (snd (fs_mkdir env (path_dirname env (path_resolve env
                                (path_join env (path_resolve env directory)
                                   (filenamePrefix @ ''_'' @ nat_to_string (k + 1) @ ''.png''))))
                              (fs_before env storeAt (path_resolve env directory) filenamePrefix
                                 (jobIds batch) fs1 k)))) = None))
    \<and> (\<forall>k. member_saved env storeAt (path_resolve env directory) filenamePrefix
               (jobIds batch) fs1 k \<longrightarrow>
           (\<exists>job r. jobs (storeAt k) (jobIds batch ! k) = Some job \<and> result job = Some r
              \<and> fs_before env storeAt (path_resolve env directory) filenamePrefix
                   (jobIds batch) fs1 (Suc k)
                 = snd (fs_writeFile env (path_resolve env
                          (path_join env (path_resolve env directory)
                             (filenamePrefix @ ''_'' @ nat_to_string (k + 1) @ ''.png'')))
                        (base64_decode env r)
                        (snd (fs_mkdir env (path_dirname env (path_resolve env
                                (path_join env (path_resolve env directory)
                                   (filenamePrefix @ ''_'' @ nat_to_string (k + 1) @ ''.png''))))
                              (fs_before env storeAt (path_resolve env directory) filenamePrefix
                                 (jobIds batch) fs1 k))))))
    \<and> (\<forall>k. decimal_value (nat_to_string (k + 1)) = k + 1
           \<and> set (nat_to_string (k + 1)) \<subseteq> set ''0123456789''
           \<and> hd (nat_to_string (k + 1)) \<noteq> CHR ''0'')
    \<and> (path_resolve env directory = directory
         \<and> (\<forall>k < length (jobIds batch).
                path_join env directory (filenamePrefix @ ''_'' @ nat_to_string (k + 1) @ ''.png'')
                  = directory @ ''/'' @ filenamePrefix @ ''_'' @ nat_to_string (k + 1)
                      @ ''.png'') \<longrightarrow>
       fst (saveBatchImages env st storeAt batchId directory filenamePrefix fs) =
         Inr (map (\<lambda>k. (jobIds batch ! k,
                         directory @ ''/'' @ filenamePrefix @ ''_'' @ nat_to_string (k + 1)
                           @ ''.png''))
                  (filter (member_saved env storeAt directory filenamePrefix (jobIds batch) fs1)
                          [0..<length (jobIds batch)]),
              spec_failed env storeAt directory filenamePrefix (jobIds batch) fs1))"
proof -
  let ?d = "path_resolve env directory"
  let ?ids = "jobIds batch"
  have eq: "saveBatchImages env st storeAt batchId directory filenamePrefix fs =
      (Inr (spec_saved env storeAt ?d filenamePrefix ?ids fs1,
            spec_failed env storeAt ?d filenamePrefix ?ids fs1),
       fs_before env storeAt ?d filenamePrefix ?ids fs1 (length ?ids))"
    by (simp add: saveBatchImages_eq [OF assms(1)] assms(2))
  have 1: "saveBatchImages env st storeAt batchId directory filenamePrefix fs =
      (Inr (map (\<lambda>k. (?ids ! k,
                        path_join env ?d (filenamePrefix @ ''_'' @ nat_to_string (k + 1) @ ''.png'')))
                (filter (member_saved env storeAt ?d filenamePrefix ?ids fs1) [0..<length ?ids]),
            spec_failed env storeAt ?d filenamePrefix ?ids fs1),
       fs_before env storeAt ?d filenamePrefix ?ids fs1 (length ?ids))"
    unfolding eq by (simp add: spec_saved_def batch_filePath_def)
  have 2: "map fst (spec_failed env storeAt ?d filenamePrefix ?ids fs1)
        = map (\<lambda>k. ?ids ! k)
              (filter (\<lambda>k. \<not> member_saved env storeAt ?d filenamePrefix ?ids fs1 k)
                      [0..<length ?ids])"
    by (simp add: spec_failed_def comp_def)
  note 3 = member_saved_iff [of env storeAt ?d filenamePrefix ?ids fs1, unfolded batch_filePath_def]
  note 4 = member_saved_write [of env storeAt ?d filenamePrefix ?ids fs1, unfolded batch_filePath_def]
  have 5: "\<forall>k. decimal_value (nat_to_string (k + 1)) = k + 1
           \<and> set (nat_to_string (k + 1)) \<subseteq> set ''0123456789''
           \<and> hd (nat_to_string (k + 1)) \<noteq> CHR ''0''"
    using nat_to_string_decimal nat_to_string_only_digits nat_to_string_no_leading_zero
    by simp
  have 6: "fst (saveBatchImages env st storeAt batchId directory filenamePrefix fs) =
         Inr (map (\<lambda>k. (?ids ! k,
                         directory @ ''/'' @ filenamePrefix @ ''_'' @ nat_to_string (k + 1)
                           @ ''.png''))
                  (filter (member_saved env storeAt directory filenamePrefix ?ids fs1)
                          [0..<length ?ids]),
              spec_failed env storeAt directory filenamePrefix ?ids fs1)"
    if r: "path_resolve env directory = directory"
      and j: "\<forall>k < length ?ids.
                path_join env directory (filenamePrefix @ ''_'' @ nat_to_string (k + 1) @ ''.png'')
                  = directory @ ''/'' @ filenamePrefix @ ''_'' @ nat_to_string (k + 1)
                      @ ''.png''"
  proof -
    have "map (\<lambda>k. (?ids ! k,
                    path_join env directory (filenamePrefix @ ''_'' @ nat_to_string (k + 1) @ ''.png'')))
              (filter (member_saved env storeAt directory filenamePrefix ?ids fs1) [0..<length ?ids])
        = map (\<lambda>k. (?ids ! k,
                    directory @ ''/'' @ filenamePrefix @ ''_'' @ nat_to_string (k + 1) @ ''.png''))
              (filter (member_saved env storeAt directory filenamePrefix ?ids fs1) [0..<length ?ids])"
      using j by (intro map_cong) auto
    then show ?thesis
      using 1 unfolding r by simp
  qed
  from 1 2 3 4 5 6 show ?thesis by blast
qed


theorem saveBatchImages_paths_witness:
  "batchJobs demo5 ''batch_1'' =
     Some \<lparr>batch_id = ''batch_1'', jobIds = [''job_1'', ''job_2'', ''job_3''], totalCount = 3,
           batch_createdAt = 103, batch_completedAt = None\<rparr>
   \<and> fs_mkdir demo_env (path_resolve demo_env ''/out'') [] = (None, [])
   \<and> saveBatchImages demo_env demo5 demo_storeAt ''batch_1'' ''/out'' ''image'' [] =
     (Inr ([(''job_2'', ''/out/image_2.png''), (''job_3'', ''/out/image_3.png'')],
           [(''job_1'', ''Job job_1 is not completed (status: failed)'')]),
      [(''/out/image_3.png'', ''aGVsbG8=''), (''/out/image_2.png'', ''d29ybGQ='')])
   \<and> [(''job_2'', ''/out/image_2.png''), (''job_3'', ''/out/image_3.png'')]
       = map (\<lambda>k. (jobIds \<lparr>batch_id = ''batch_1'',
                              jobIds = [''job_1'', ''job_2'', ''job_3''], totalCount = 3,
                              batch_createdAt = 103, batch_completedAt = None\<rparr> ! k,
                     path_join demo_env (path_resolve demo_env ''/out'')
                       (''image'' @ ''_'' @ nat_to_string (k + 1) @ ''.png'')))
             (filter (member_saved demo_env demo_storeAt (path_resolve demo_env ''/out'') ''image''
                        (jobIds \<lparr>batch_id = ''batch_1'',
                              jobIds = [''job_1'', ''job_2'', ''job_3''], totalCount = 3,
                              batch_createdAt = 103, batch_completedAt = None\<rparr>) [])
                     [0..<length (jobIds \<lparr>batch_id = ''batch_1'',
                              jobIds = [''job_1'', ''job_2'', ''job_3''], totalCount = 3,
                              batch_createdAt = 103, batch_completedAt = None\<rparr>)])
   \<and> decimal_value (nat_to_string (1 + 1)) = 1 + 1"
proof -
  have mk: "fs_mkdir demo_env (path_resolve demo_env ''/out'') [] = (None, [])"
    by (simp add: demo_env_def)
  note t = saveBatchImages_paths [OF demo5_batch mk, of demo_storeAt "''image''"]
  note e = t [THEN conjunct1, unfolded demo_save]
  have s: "[(''job_2'', ''/out/image_2.png''), (''job_3'', ''/out/image_3.png'')]
       = map (\<lambda>k. (jobIds \<lparr>batch_id = ''batch_1'',
                              jobIds = [''job_1'', ''job_2'', ''job_3''], totalCount = 3,
                              batch_createdAt = 103, batch_completedAt = None\<rparr> ! k,
                     path_join demo_env (path_resolve demo_env ''/out'')
                       (''image'' @ ''_'' @ nat_to_string (k + 1) @ ''.png'')))
             (filter (member_saved demo_env demo_storeAt (path_resolve demo_env ''/out'') ''image''
                        (jobIds \<lparr>batch_id = ''batch_1'',
                              jobIds = [''job_1'', ''job_2'', ''job_3''], totalCount = 3,
                              batch_createdAt = 103, batch_completedAt = None\<rparr>) [])
                     [0..<length (jobIds \<lparr>batch_id = ''batch_1'',
                              jobIds = [''job_1'', ''job_2'', ''job_3''], totalCount = 3,
                              batch_createdAt = 103, batch_completedAt = None\<rparr>)])"
    using e by (simp only: prod.inject sum.inject)
  have d: "decimal_value (nat_to_string (1 + 1)) = 1 + 1"
    using t [THEN conjunct2, THEN conjunct2, THEN conjunct2, THEN conjunct2, THEN conjunct1,
             THEN spec, of 1]
    by (rule conjunct1)
  from demo5_batch mk demo_save s d show ?thesis by (intro conjI)
qed

theorem saveBatchImages_mkdir_counterexample:
  "batchJobs demo6b ''batch_1'' =
     Some \<lparr>batch_id = ''batch_1'', jobIds = [''job_1'', ''job_2'', ''job_3''], totalCount = 3,
           batch_createdAt = 103, batch_completedAt = None\<rparr>
   \<and> saveBatchImages demo_env_ro demo6b (\<lambda>k. demo6b) ''batch_1'' ''/out'' ''image'' []
       = (Inl (IOError ''EACCES: permission denied''), [])
   \<and> handle_save_batch_images demo_env_ro demo6b (\<lambda>k. demo6b)
         \<lparr>sb_batchId = ''batch_1'', sb_directory = ''/out'', sb_filenamePrefix = None\<rparr> []
       = (Inl (Thrown (IOError ''EACCES: permission denied'')), [])"
  by (simp add: handle_save_batch_images_def saveBatchImages_def demo6b_batch demo_env_ro_def
        demo_env_def)

text \<open>
  Claim C4, as amended. Take a known batch in a reachable state. When creating the
  target directory fails, \<open>saveBatchImages\<close> fails as a whole with that error before
  any member is tried, and so does the handler. When it succeeds, every member is tried,
  in the stored order, each on the job store of its moment and on the file system its
  predecessors left: the outcome of the member at index \<open>k\<close> is that of
  \<open>saveImageToFile\<close> on it, whatever the outcomes before. The saved list holds
  exactly the members whose save succeeded, with job id and path; the failed list
  exactly the others, with job id and the message of their error; every member is in one
  of them and the two lengths add up to \<^verbatim>\<open>totalCount\<close>. A member whose job is not
  completed when it is tried is in the failed list with the not-completed message, and
  the members after it are still tried. The handler answers with both lists and their
  lengths, and its success flag is true exactly if at least one member was saved.
\<close>

theorem saveBatchImages_partition:
  assumes "reachable st" and "batchJobs st batchId = Some batch"
  shows "(\<forall>m fs1. fs_mkdir env (path_resolve env directory) fs = (Some m, fs1) \<longrightarrow>
            saveBatchImages env st storeAt batchId directory filenamePrefix fs
              = (Inl (IOError m), fs1)
          \<and> handle_save_batch_images env st storeAt
               \<lparr>sb_batchId = batchId, sb_directory = directory,
                sb_filenamePrefix = Some filenamePrefix\<rparr> fs
              = (Inl (Thrown (IOError m)), fs1))
     \<and> (\<forall>fs1. fs_mkdir env (path_resolve env directory) fs = (None, fs1) \<longrightarrow>
            saveBatchImages env st storeAt batchId directory filenamePrefix fs
              = (Inr (spec_saved env storeAt (path_resolve env directory) filenamePrefix (jobIds batch) fs1, spec_failed env storeAt (path_resolve env directory) filenamePrefix (jobIds batch) fs1),
                 fs_before env storeAt (path_resolve env directory) filenamePrefix (jobIds batch) fs1 (length (jobIds batch)))
          \<and> length (spec_saved env storeAt (path_resolve env directory) filenamePrefix (jobIds batch) fs1) + length (spec_failed env storeAt (path_resolve env directory) filenamePrefix (jobIds batch) fs1) = totalCount batch
          \<and> (\<forall>k < length (jobIds batch).
                member_try env storeAt (path_resolve env directory) filenamePrefix (jobIds batch) fs1 k
                  = fst (saveImageToFile env (storeAt k) (jobIds batch ! k)
                           (batch_filePath env (path_resolve env directory) filenamePrefix k)
                           (fs_before env storeAt (path_resolve env directory) filenamePrefix (jobIds batch) fs1 k))
              \<and> (member_saved env storeAt (path_resolve env directory) filenamePrefix (jobIds batch) fs1 k = (\<exists>u. member_try env storeAt (path_resolve env directory) filenamePrefix (jobIds batch) fs1 k = Inr u))
              \<and> (member_saved env storeAt (path_resolve env directory) filenamePrefix (jobIds batch) fs1 k \<longrightarrow>
                    (jobIds batch ! k, batch_filePath env (path_resolve env directory) filenamePrefix k)
                      \<in> set (spec_saved env storeAt (path_resolve env directory) filenamePrefix (jobIds batch) fs1)
                    \<and> map_option status (jobs (storeAt k) (jobIds batch ! k)) = Some completed)
              \<and> (\<forall>e. member_try env storeAt (path_resolve env directory) filenamePrefix (jobIds batch) fs1 k = Inl e \<longrightarrow>
                    (jobIds batch ! k, message e) \<in> set (spec_failed env storeAt (path_resolve env directory) filenamePrefix (jobIds batch) fs1))
              \<and> (\<forall>job. jobs (storeAt k) (jobIds batch ! k) = Some job
                        \<and> status job \<noteq> completed \<longrightarrow>
                    (jobIds batch ! k, message (JobNotCompleted (jobIds batch ! k) (status job)))
                      \<in> set (spec_failed env storeAt (path_resolve env directory) filenamePrefix (jobIds batch) fs1)))
          \<and> spec_saved env storeAt (path_resolve env directory) filenamePrefix (jobIds batch) fs1
              = map (\<lambda>k. (jobIds batch ! k, batch_filePath env (path_resolve env directory) filenamePrefix k))
                    (filter (member_saved env storeAt (path_resolve env directory) filenamePrefix (jobIds batch) fs1) [0..<length (jobIds batch)])
          \<and> spec_failed env storeAt (path_resolve env directory) filenamePrefix (jobIds batch) fs1
              = map (\<lambda>k. (jobIds batch ! k, member_error env storeAt (path_resolve env directory) filenamePrefix (jobIds batch) fs1 k))
                    (filter (\<lambda>k. \<not> member_saved env storeAt (path_resolve env directory) filenamePrefix (jobIds batch) fs1 k) [0..<length (jobIds batch)])
          \<and> handle_save_batch_images env st storeAt
               \<lparr>sb_batchId = batchId, sb_directory = directory,
                sb_filenamePrefix = Some filenamePrefix\<rparr> fs
              = (Inr \<lparr>sr_success = (\<exists>k < length (jobIds batch). member_saved env storeAt (path_resolve env directory) filenamePrefix (jobIds batch) fs1 k),
                      sr_message = ''Saved '' @ nat_to_string (length (spec_saved env storeAt (path_resolve env directory) filenamePrefix (jobIds batch) fs1))
                                   @ '' images to '' @ directory,
                      sr_savedCount = length (spec_saved env storeAt (path_resolve env directory) filenamePrefix (jobIds batch) fs1),
                      sr_failedCount = length (spec_failed env storeAt (path_resolve env directory) filenamePrefix (jobIds batch) fs1),
                      sr_saved = spec_saved env storeAt (path_resolve env directory) filenamePrefix (jobIds batch) fs1,
                      sr_failed = (if spec_failed env storeAt (path_resolve env directory) filenamePrefix (jobIds batch) fs1 = [] then None
                                   else Some (spec_failed env storeAt (path_resolve env directory) filenamePrefix (jobIds batch) fs1))\<rparr>,
                 fs_before env storeAt (path_resolve env directory) filenamePrefix (jobIds batch) fs1 (length (jobIds batch))))"
proof (intro conjI allI impI)
  fix m fs1
  assume mk: "fs_mkdir env (path_resolve env directory) fs = (Some m, fs1)"
  show "saveBatchImages env st storeAt batchId directory filenamePrefix fs = (Inl (IOError m), fs1)"
    by (simp add: saveBatchImages_eq [OF assms(2)] mk)
  then show "handle_save_batch_images env st storeAt
               \<lparr>sb_batchId = batchId, sb_directory = directory,
                sb_filenamePrefix = Some filenamePrefix\<rparr> fs
              = (Inl (Thrown (IOError m)), fs1)"
    by (simp add: handle_save_batch_images_def)
next
  fix fs1
  assume mk: "fs_mkdir env (path_resolve env directory) fs = (None, fs1)"
  have inv: "store_inv st" using assms(1) by (rule reachable_inv)
  have total: "totalCount batch = length (jobIds batch)"
    using store_inv_batch [OF inv assms(2)] by simp
  show eq: "saveBatchImages env st storeAt batchId directory filenamePrefix fs
              = (Inr (spec_saved env storeAt (path_resolve env directory) filenamePrefix (jobIds batch) fs1, spec_failed env storeAt (path_resolve env directory) filenamePrefix (jobIds batch) fs1),
                 fs_before env storeAt (path_resolve env directory) filenamePrefix (jobIds batch) fs1 (length (jobIds batch)))"
    by (simp add: saveBatchImages_eq [OF assms(2)] mk)
  show "length (spec_saved env storeAt (path_resolve env directory) filenamePrefix (jobIds batch) fs1) + length (spec_failed env storeAt (path_resolve env directory) filenamePrefix (jobIds batch) fs1) = totalCount batch"
    by (simp add: spec_lengths total)
  show "spec_saved env storeAt (path_resolve env directory) filenamePrefix (jobIds batch) fs1
              = map (\<lambda>k. (jobIds batch ! k, batch_filePath env (path_resolve env directory) filenamePrefix k))
                    (filter (member_saved env storeAt (path_resolve env directory) filenamePrefix (jobIds batch) fs1) [0..<length (jobIds batch)])"
    by (simp add: spec_saved_def)
  show "spec_failed env storeAt (path_resolve env directory) filenamePrefix (jobIds batch) fs1
              = map (\<lambda>k. (jobIds batch ! k, member_error env storeAt (path_resolve env directory) filenamePrefix (jobIds batch) fs1 k))
                    (filter (\<lambda>k. \<not> member_saved env storeAt (path_resolve env directory) filenamePrefix (jobIds batch) fs1 k) [0..<length (jobIds batch)])"
    by (simp add: spec_failed_def)
  show "handle_save_batch_images env st storeAt
               \<lparr>sb_batchId = batchId, sb_directory = directory,
                sb_filenamePrefix = Some filenamePrefix\<rparr> fs
              = (Inr \<lparr>sr_success = (\<exists>k < length (jobIds batch). member_saved env storeAt (path_resolve env directory) filenamePrefix (jobIds batch) fs1 k),
                      sr_message = ''Saved '' @ nat_to_string (length (spec_saved env storeAt (path_resolve env directory) filenamePrefix (jobIds batch) fs1))
                                   @ '' images to '' @ directory,
                      sr_savedCount = length (spec_saved env storeAt (path_resolve env directory) filenamePrefix (jobIds batch) fs1),
                      sr_failedCount = length (spec_failed env storeAt (path_resolve env directory) filenamePrefix (jobIds batch) fs1),
                      sr_saved = spec_saved env storeAt (path_resolve env directory) filenamePrefix (jobIds batch) fs1,
                      sr_failed = (if spec_failed env storeAt (path_resolve env directory) filenamePrefix (jobIds batch) fs1 = [] then None
                                   else Some (spec_failed env storeAt (path_resolve env directory) filenamePrefix (jobIds batch) fs1))\<rparr>,
                 fs_before env storeAt (path_resolve env directory) filenamePrefix (jobIds batch) fs1 (length (jobIds batch)))"
    using spec_saved_empty [of env storeAt "path_resolve env directory" filenamePrefix "jobIds batch" fs1]
    by (simp add: handle_save_batch_images_def eq)
next
  fix fs1 k
  assume k: "k < length (jobIds batch)"
  show "member_try env storeAt (path_resolve env directory) filenamePrefix (jobIds batch) fs1 k
                  = fst (saveImageToFile env (storeAt k) (jobIds batch ! k)
                           (batch_filePath env (path_resolve env directory) filenamePrefix k)
                           (fs_before env storeAt (path_resolve env directory) filenamePrefix (jobIds batch) fs1 k))"
    by (simp add: member_try_def)
  show "member_saved env storeAt (path_resolve env directory) filenamePrefix (jobIds batch) fs1 k = (\<exists>u. member_try env storeAt (path_resolve env directory) filenamePrefix (jobIds batch) fs1 k = Inr u)"
    by (simp add: member_saved_def split: sum.splits)
  {
    assume ms: "member_saved env storeAt (path_resolve env directory) filenamePrefix (jobIds batch) fs1 k"
    show "(jobIds batch ! k, batch_filePath env (path_resolve env directory) filenamePrefix k) \<in> set (spec_saved env storeAt (path_resolve env directory) filenamePrefix (jobIds batch) fs1)"
      using member_in_lists(1) [OF k ms] .
    show "map_option status (jobs (storeAt k) (jobIds batch ! k)) = Some completed"
      using ms member_saved_iff [of env storeAt "path_resolve env directory" filenamePrefix "jobIds batch" fs1 k] by auto
  }
  {
    fix e assume e: "member_try env storeAt (path_resolve env directory) filenamePrefix (jobIds batch) fs1 k = Inl e"
    then have ns: "\<not> member_saved env storeAt (path_resolve env directory) filenamePrefix (jobIds batch) fs1 k" and me: "member_error env storeAt (path_resolve env directory) filenamePrefix (jobIds batch) fs1 k = message e"
      by (simp_all add: member_saved_def member_error_def)
    show "(jobIds batch ! k, message e) \<in> set (spec_failed env storeAt (path_resolve env directory) filenamePrefix (jobIds batch) fs1)"
      using member_in_lists(2) [OF k ns] by (simp add: me)
  }
  {
    fix job
    assume "jobs (storeAt k) (jobIds batch ! k) = Some job \<and> status job \<noteq> completed"
    then have e: "member_try env storeAt (path_resolve env directory) filenamePrefix (jobIds batch) fs1 k = Inl (JobNotCompleted (jobIds batch ! k) (status job))"
      by (simp add: member_not_completed)
    then have ns: "\<not> member_saved env storeAt (path_resolve env directory) filenamePrefix (jobIds batch) fs1 k"
      and me: "member_error env storeAt (path_resolve env directory) filenamePrefix (jobIds batch) fs1 k = message (JobNotCompleted (jobIds batch ! k) (status job))"
      by (simp_all add: member_saved_def member_error_def)
    show "(jobIds batch ! k, message (JobNotCompleted (jobIds batch ! k) (status job)))
                      \<in> set (spec_failed env storeAt (path_resolve env directory) filenamePrefix (jobIds batch) fs1)"
      using member_in_lists(2) [OF k ns] by (simp add: me)
  }
qed


theorem saveBatchImages_partition_witness:
  "reachable demo5
   \<and> batchJobs demo5 ''batch_1'' = Some \<lparr>batch_id = ''batch_1'', jobIds = [''job_1'', ''job_2'', ''job_3''],
                       totalCount = 3, batch_createdAt = 103, batch_completedAt = None\<rparr>
   \<and> fs_mkdir demo_env (path_resolve demo_env ''/out'') [] = (None, [])
   \<and> jobs demo5 ''job_2'' =
       Some \<lparr>job_id = ''job_2'', status = processing, prompt = ''a dog'', result = None,
             error = None, job_createdAt = 101, job_completedAt = None\<rparr>
   \<and> saveBatchImages demo_env demo5 demo_storeAt ''batch_1'' ''/out'' ''image'' [] =
     (Inr ([(''job_2'', ''/out/image_2.png''), (''job_3'', ''/out/image_3.png'')],
           [(''job_1'', ''Job job_1 is not completed (status: failed)'')]),
      [(''/out/image_3.png'', ''aGVsbG8=''), (''/out/image_2.png'', ''d29ybGQ='')])
   \<and> [(''job_2'', ''/out/image_2.png''), (''job_3'', ''/out/image_3.png'')]
       = spec_saved demo_env demo_storeAt (path_resolve demo_env ''/out'') ''image''
              (jobIds \<lparr>batch_id = ''batch_1'', jobIds = [''job_1'', ''job_2'', ''job_3''],
                       totalCount = 3, batch_createdAt = 103, batch_completedAt = None\<rparr>) []
   \<and> [(''job_1'', ''Job job_1 is not completed (status: failed)'')]
       = spec_failed demo_env demo_storeAt (path_resolve demo_env ''/out'') ''image''
              (jobIds \<lparr>batch_id = ''batch_1'', jobIds = [''job_1'', ''job_2'', ''job_3''],
                       totalCount = 3, batch_createdAt = 103, batch_completedAt = None\<rparr>) []
   \<and> length (spec_saved demo_env demo_storeAt (path_resolve demo_env ''/out'') ''image''
              (jobIds \<lparr>batch_id = ''batch_1'', jobIds = [''job_1'', ''job_2'', ''job_3''],
                       totalCount = 3, batch_createdAt = 103, batch_completedAt = None\<rparr>) []) + length (spec_failed demo_env demo_storeAt (path_resolve demo_env ''/out'') ''image''
              (jobIds \<lparr>batch_id = ''batch_1'', jobIds = [''job_1'', ''job_2'', ''job_3''],
                       totalCount = 3, batch_createdAt = 103, batch_completedAt = None\<rparr>) []) = totalCount \<lparr>batch_id = ''batch_1'', jobIds = [''job_1'', ''job_2'', ''job_3''],
                       totalCount = 3, batch_createdAt = 103, batch_completedAt = None\<rparr>
   \<and> handle_save_batch_images demo_env demo5 demo_storeAt
        \<lparr>sb_batchId = ''batch_1'', sb_directory = ''/out'', sb_filenamePrefix = Some ''image''\<rparr> []
      = (Inr \<lparr>sr_success = True, sr_message = ''Saved 2 images to /out'',
              sr_savedCount = 2, sr_failedCount = 1,
              sr_saved = [(''job_2'', ''/out/image_2.png''), (''job_3'', ''/out/image_3.png'')],
              sr_failed = Some [(''job_1'', ''Job job_1 is not completed (status: failed)'')]\<rparr>,
         [(''/out/image_3.png'', ''aGVsbG8=''), (''/out/image_2.png'', ''d29ybGQ='')])"
proof -
  have mk: "fs_mkdir demo_env (path_resolve demo_env ''/out'') [] = (None, [])"
    by (simp add: demo_env_def)
  note t = saveBatchImages_partition [OF demo_reachable(6) demo5_batch,
      where env = demo_env and directory = "''/out''" and fs = "[]" and storeAt = demo_storeAt
        and filenamePrefix = "''image''"]
  note t2 = t [THEN conjunct2, THEN spec, THEN mp, OF mk]
  note e = t2 [THEN conjunct1, unfolded demo_save]
  have sp: "[(''job_2'', ''/out/image_2.png''), (''job_3'', ''/out/image_3.png'')]
       = spec_saved demo_env demo_storeAt (path_resolve demo_env ''/out'') ''image''
              (jobIds \<lparr>batch_id = ''batch_1'', jobIds = [''job_1'', ''job_2'', ''job_3''],
                       totalCount = 3, batch_createdAt = 103, batch_completedAt = None\<rparr>) []"
    "[(''job_1'', ''Job job_1 is not completed (status: failed)'')]
       = spec_failed demo_env demo_storeAt (path_resolve demo_env ''/out'') ''image''
              (jobIds \<lparr>batch_id = ''batch_1'', jobIds = [''job_1'', ''job_2'', ''job_3''],
                       totalCount = 3, batch_createdAt = 103, batch_completedAt = None\<rparr>) []"
    using e by (simp_all only: prod.inject sum.inject)
  note len = t2 [THEN conjunct2, THEN conjunct1]
  have h: "handle_save_batch_images demo_env demo5 demo_storeAt
        \<lparr>sb_batchId = ''batch_1'', sb_directory = ''/out'', sb_filenamePrefix = Some ''image''\<rparr> []
      = (Inr \<lparr>sr_success = True, sr_message = ''Saved 2 images to /out'',
              sr_savedCount = 2, sr_failedCount = 1,
              sr_saved = [(''job_2'', ''/out/image_2.png''), (''job_3'', ''/out/image_3.png'')],
              sr_failed = Some [(''job_1'', ''Job job_1 is not completed (status: failed)'')]\<rparr>,
         [(''/out/image_3.png'', ''aGVsbG8=''), (''/out/image_2.png'', ''d29ybGQ='')])"
    by (simp add: handle_save_batch_images_def demo_save nat_to_string.simps digit_char_def)
  from demo_reachable(6) demo5_batch mk demo5_jobs(2) demo_save sp len h
  show ?thesis by (intro conjI)
qed

section \<open>A batch submission as steps of the server\<close>

text \<open>
  Run without interruption, \<open>generateBatchImages\<close> is a sequence of steps of the server,
  provided the ids it draws are unused and pairwise distinct.
\<close>

lemma generateBatch_loop_steps:
  assumes "\<forall>i. k \<le> i \<and> i < k + length ps \<longrightarrow> fst (gen i) \<notin> dom (jobs st)"
    and "inj_on (\<lambda>i. fst (gen i)) {k..<k + length ps}"
  shows "step\<^sup>*\<^sup>* st (fst (generateBatch_loop st ps dar dm gen k ids))"
  using assms
proof (induction ps arbitrary: st k ids)
  case Nil
  show ?case by simp
next
  case (Cons a ps)
  let ?ar = "case bp_aspectRatio a of Some x \<Rightarrow> x | None \<Rightarrow> dar"
  let ?m = "case bp_model a of Some x \<Rightarrow> x | None \<Rightarrow> dm"
  let ?st1 = "fst (generateImage st (fst (gen k)) (snd (gen k)) (bp_prompt a) ?ar ?m)"
  have "fst (gen k) \<notin> dom (jobs st)" using Cons.prems(1) by simp
  then have 1: "step\<^sup>*\<^sup>* st ?st1" by (rule generateImage_steps)
  have fresh: "\<forall>i. Suc k \<le> i \<and> i < Suc k + length ps \<longrightarrow> fst (gen i) \<notin> dom (jobs ?st1)"
  proof (intro allI impI)
    fix i assume i: "Suc k \<le> i \<and> i < Suc k + length ps"
    have "i \<in> {k..<k + length (a # ps)}" "k \<in> {k..<k + length (a # ps)}" "i \<noteq> k"
      using i by auto
    then have "fst (gen i) \<noteq> fst (gen k)"
      using Cons.prems(2) by (meson inj_onD)
    moreover have "fst (gen i) \<notin> dom (jobs st)" using Cons.prems(1) i by simp
    ultimately show "fst (gen i) \<notin> dom (jobs ?st1)" by (simp add: generateImage_dom)
  qed
  have inj: "inj_on (\<lambda>i. fst (gen i)) {Suc k..<Suc k + length ps}"
    using Cons.prems(2) by (rule inj_on_subset) auto
  have 2: "step\<^sup>*\<^sup>* ?st1 (fst (generateBatch_loop ?st1 ps dar dm gen (Suc k)
                              (ids @ [fst (gen k)])))"
    using fresh inj by (rule Cons.IH)
  from 1 2 show ?case
    by (simp add: Let_def split_beta generateImage_id)
qed

lemma generateBatchImages_steps:
  assumes "\<forall>i < length ps. fst (gen i) \<notin> dom (jobs st)"
    and "inj_on (\<lambda>i. fst (gen i)) {0..<length ps}"
    and "batchId \<notin> dom (batchJobs st)"
  shows "step\<^sup>*\<^sup>* st (fst (generateBatchImages st ps dar dm gen batchId now))"
proof -
  let ?loop = "generateBatch_loop st ps dar dm gen 0 []"
  let ?ids = "map (\<lambda>i. fst (gen i)) [0..<length ps]"
  have 1: "step\<^sup>*\<^sup>* st (fst ?loop)"
    using assms(1,2) by (intro generateBatch_loop_steps) simp_all
  have ids: "snd ?loop = ?ids" by (simp add: generateBatch_loop_ids)
  have "step (fst ?loop) (createBatch (fst ?loop) batchId ?ids (length ?ids) now)"
  proof (rule step_batch)
    show "batchId \<notin> dom (batchJobs (fst ?loop))"
      using assms(3) by (simp add: generateBatch_loop_batchJobs)
    show "set ?ids \<subseteq> dom (jobs (fst ?loop))"
      by (simp add: generateBatch_loop_dom)
  qed
  then have 2: "step (fst ?loop) (fst (generateBatchImages st ps dar dm gen batchId now))"
    using ids by (simp add: generateBatchImages_def split_beta)
  from 1 2 show ?thesis by simp
qed

end
